theory Spec2Isabelle
  imports Main
begin

section \<open>Strings\<close>

text \<open>
  Source strings are modelled as \<open>string\<close>. The character classes of the regular
  expressions in \<open>mod.ts\<close> are ASCII classes, written out as membership in a literal.
\<close>

definition isLowerAZ :: "char \<Rightarrow> bool" where
  "isLowerAZ c = (c \<in> set ''abcdefghijklmnopqrstuvwxyz'')"

definition isUpperAZ :: "char \<Rightarrow> bool" where
  "isUpperAZ c = (c \<in> set ''ABCDEFGHIJKLMNOPQRSTUVWXYZ'')"

definition isDigit :: "char \<Rightarrow> bool" where
  "isDigit c = (c \<in> set ''0123456789'')"

definition isHyphen :: "char \<Rightarrow> bool" where
  "isHyphen c = (c = CHR ''-'')"

text \<open>The class \<open>[a-z0-9-]\<close>.\<close>

definition slugChar :: "char \<Rightarrow> bool" where
  "slugChar c = (isLowerAZ c \<or> isDigit c \<or> isHyphen c)"

text \<open>\<open>String.prototype.toLowerCase\<close> on the ASCII letters; every other character is kept.\<close>

definition lowerChar :: "char \<Rightarrow> char" where
  "lowerChar c =
     (case map_of (zip ''ABCDEFGHIJKLMNOPQRSTUVWXYZ'' ''abcdefghijklmnopqrstuvwxyz'') c of
        Some d \<Rightarrow> d
      | None \<Rightarrow> c)"

definition toLowerCase :: "string \<Rightarrow> string" where
  "toLowerCase s = map lowerChar s"

text \<open>
  \<open>.replace(/[^a-z0-9-]+/g, "-")\<close>: scanning from the left, a character of the class is
  copied; at a character outside the class the greedy \<open>+\<close> takes the whole run of such
  characters and one hyphen is written for it.
\<close>

function replaceRuns :: "string \<Rightarrow> string" where
  "replaceRuns [] = []"
| "replaceRuns (c # cs) =
     (if slugChar c then c # replaceRuns cs
      else CHR ''-'' # replaceRuns (dropWhile (\<lambda>d. \<not> slugChar d) cs))"
  by pat_completeness auto
termination
  by (relation "measure length") (auto simp: length_dropWhile_le less_Suc_eq_le)

text \<open>
  \<open>.replace(/^-+|-+$/g, "")\<close>: the first alternative removes the hyphens at the start,
  the second the run of hyphens that reaches the end.
\<close>

definition stripHyphens :: "string \<Rightarrow> string" where
  "stripHyphens s = rev (dropWhile isHyphen (rev (dropWhile isHyphen s)))"

text \<open>The chain of three calls shared by \<open>slugFromFolder\<close> and \<open>slugFromPkg\<close>.\<close>

definition slugify :: "string \<Rightarrow> string" where
  "slugify s = stripHyphens (replaceRuns (toLowerCase s))"

section \<open>Slug and domain\<close>

text \<open>
  What the functions read from the runtime: \<open>Deno.cwd()\<close>, \<open>basename\<close> of
  \<open>@std/path\<close>, and what \<open>JSON.parse(Deno.readTextFileSync(join(dir, "package.json")))\<close>
  gives for a directory.
\<close>

datatype pkgfile =
  PkgThrows
| PkgName string
| PkgNoName

record sys =
  sys_cwd :: string
  sys_basename :: "string \<Rightarrow> string"
  sys_pkg :: "string \<Rightarrow> pkgfile"

definition slugFromFolder :: "sys \<Rightarrow> string option \<Rightarrow> string" where
  "slugFromFolder y wd =
     (let dir = (case wd of Some d \<Rightarrow> d | None \<Rightarrow> sys_cwd y)
      in slugify (sys_basename y dir))"

definition slugFromPkg :: "sys \<Rightarrow> string option \<Rightarrow> string" where
  "slugFromPkg y wd =
     (let dir = (case wd of Some d \<Rightarrow> d | None \<Rightarrow> sys_cwd y)
      in case sys_pkg y dir of
           PkgThrows \<Rightarrow> slugFromFolder y (Some dir)
         | PkgName n \<Rightarrow> slugify n
         | PkgNoName \<Rightarrow> slugify (slugFromFolder y (Some dir)))"

datatype nameSource = Folder | Pkg

record domainOptions =
  domain :: "string option"
  nameSource :: "nameSource option"
  tld :: "string option"
  cwd :: "string option"

text \<open>\<open>if (options.domain)\<close> is a truthiness test: the empty string does not pass it.\<close>

definition computeDomain :: "sys \<Rightarrow> domainOptions \<Rightarrow> string" where
  "computeDomain y options =
     (if (case domain options of Some d \<Rightarrow> d \<noteq> [] | None \<Rightarrow> False)
      then the (domain options)
      else
        (let ns = (case nameSource options of Some n \<Rightarrow> n | None \<Rightarrow> Folder);
             t = (case tld options of Some t \<Rightarrow> t | None \<Rightarrow> ''localhost'');
             base = (if ns = Pkg then slugFromPkg y (cwd options)
                     else slugFromFolder y (cwd options))
         in base @ ''.'' @ t))"

text \<open>
  A runtime for the examples: the working directory \<open>/home/dev/My App!\<close>, \<open>basename\<close>
  as the part after the last slash, and no readable \<open>package.json\<close>.
\<close>

definition posixBasename :: "string \<Rightarrow> string" where
  "posixBasename p = rev (takeWhile (\<lambda>c. c \<noteq> CHR ''/'') (rev p))"

definition sys0 :: sys where
  "sys0 = \<lparr>sys_cwd = ''/home/dev/My App!'', sys_basename = posixBasename,
           sys_pkg = (\<lambda>_. PkgThrows)\<rparr>"

section \<open>Routes\<close>

text \<open>The type \<open>CaddyRoute\<close> of the source; an optional field is an \<open>option\<close>.\<close>

record matcher =
  host :: "string list option"

record upstream =
  dial :: string

record handlerObj =
  handler :: string
  upstreams :: "upstream list option"

record CaddyRoute =
  match :: "matcher list option"
  handle :: "handlerObj list option"
  terminal :: "bool option"

record 'r found =
  route :: "'r option"
  index :: int

text \<open>The inner loop of \<open>findRouteByHost\<close> over the matchers of one route.\<close>

fun matchesHost :: "matcher list \<Rightarrow> string \<Rightarrow> bool" where
  "matchesHost [] h = False"
| "matchesHost (m # ms) h =
     (if (case host m of Some hs \<Rightarrow> h \<in> set hs | None \<Rightarrow> False) then True
      else matchesHost ms h)"

text \<open>The outer loop, from index \<open>i\<close> on.\<close>

fun findFrom :: "int \<Rightarrow> CaddyRoute list \<Rightarrow> string \<Rightarrow> CaddyRoute found" where
  "findFrom i [] h = \<lparr>route = None, index = -1\<rparr>"
| "findFrom i (r # rs) h =
     (if matchesHost (case match r of Some ms \<Rightarrow> ms | None \<Rightarrow> []) h
      then \<lparr>route = Some r, index = i\<rparr>
      else findFrom (i + 1) rs h)"

definition findRouteByHost :: "CaddyRoute list option \<Rightarrow> string \<Rightarrow> CaddyRoute found" where
  "findRouteByHost routes h =
     (case routes of
        None \<Rightarrow> \<lparr>route = None, index = -1\<rparr>
      | Some rs \<Rightarrow> findFrom 0 rs h)"

subsection \<open>Decimal numbers\<close>

definition digitChar :: "nat \<Rightarrow> char" where
  "digitChar d = ''0123456789'' ! d"

definition digitVal :: "char \<Rightarrow> nat" where
  "digitVal c = (case map_of (zip ''0123456789'' [0, 1, 2, 3, 4, 5, 6, 7, 8, 9]) c of
                   Some d \<Rightarrow> d
                 | None \<Rightarrow> 0)"

text \<open>
  A natural number in a template literal: its decimal digits. (The source prints a number
  from \<open>10^21\<close> on with an exponent; no port is that large.)
\<close>

function showNat :: "nat \<Rightarrow> string" where
  "showNat n = (if n < 10 then [digitChar n] else showNat (n div 10) @ [digitChar (n mod 10)])"
  by pat_completeness auto
termination
  by (relation "measure id") auto

declare showNat.simps [simp del]

text \<open>An integer in a template literal.\<close>

definition showInt :: "int \<Rightarrow> string" where
  "showInt i = (if i < 0 then ''-'' @ showNat (nat (- i)) else showNat (nat i))"

text \<open>
  \<open>Number\<close> on a string of decimal digits, read exactly. (The source rounds to the nearest
  double above \<open>2^53\<close>.)
\<close>

definition Number :: "string \<Rightarrow> nat" where
  "Number ds = foldl (\<lambda>a c. 10 * a + digitVal c) 0 ds"

text \<open>\<open>String.prototype.trim\<close>, for the ASCII white space.\<close>

definition isSpace :: "char \<Rightarrow> bool" where
  "isSpace c = (c \<in> {CHR '' '', CHR 0x09, CHR 0x0A, CHR 0x0B, CHR 0x0C, CHR 0x0D})"

definition trim :: "string \<Rightarrow> string" where
  "trim s = rev (dropWhile isSpace (rev (dropWhile isSpace s)))"

text \<open>
  \<open>/:(\d+)$/.exec(s)\<close>: the leftmost position with a colon followed by one or more
  digits up to the end of the string; the result is the group \<open>m[1]\<close>.
\<close>

fun execPort :: "string \<Rightarrow> string option" where
  "execPort [] = None"
| "execPort (c # cs) =
     (if c = CHR '':'' \<and> cs \<noteq> [] \<and> list_all isDigit cs then Some cs else execPort cs)"

text \<open>The loop of \<open>extractUpstreamPort\<close> over the handlers.\<close>

fun scanHandlers :: "handlerObj list \<Rightarrow> nat option" where
  "scanHandlers [] = None"
| "scanHandlers (h # hs) =
     (if handler h = ''reverse_proxy'' then
        (case upstreams h of
           Some (u # us) \<Rightarrow>
             (if dial u \<noteq> [] then
                (case execPort (trim (dial u)) of
                   Some ds \<Rightarrow> Some (Number ds)
                 | None \<Rightarrow> scanHandlers hs)
              else scanHandlers hs)
         | _ \<Rightarrow> scanHandlers hs)
      else scanHandlers hs)"

definition extractUpstreamPort :: "CaddyRoute \<Rightarrow> nat option" where
  "extractUpstreamPort r = scanHandlers (case handle r of Some hs \<Rightarrow> hs | None \<Rightarrow> [])"

text \<open>The template literal \<open>`127.0.0.1:${port}`\<close>.\<close>

definition dialFor :: "nat \<Rightarrow> string" where
  "dialFor port = ''127.0.0.1:'' @ showNat port"

text \<open>
  The route literal that \<open>addRoute\<close> and \<open>replaceRouteAt\<close> both build for a domain and
  a port.
\<close>

definition newRoute :: "string \<Rightarrow> nat \<Rightarrow> CaddyRoute" where
  "newRoute d port =
     \<lparr>match = Some [\<lparr>host = Some [d]\<rparr>],
      handle = Some [\<lparr>handler = ''reverse_proxy'',
                      upstreams = Some [\<lparr>dial = dialFor port\<rparr>]\<rparr>],
      terminal = Some True\<rparr>"

text \<open>\<open>pickHttpsPort\<close>: the ports of the listen addresses, 443 first, else the first not 80.\<close>

definition pickHttpsPort :: "string list \<Rightarrow> nat option" where
  "pickHttpsPort ls =
     (let ports = map Number (List.map_filter execPort ls)
      in if 443 \<in> set ports then Some 443 else find (\<lambda>p. p \<noteq> 80) ports)"

text \<open>\<open>arraysEqual\<close>: same length and equal elements at every index.\<close>

definition arraysEqual :: "'a list \<Rightarrow> 'a list \<Rightarrow> bool" where
  "arraysEqual a b =
     (if length a \<noteq> length b then False
      else list_all (\<lambda>i. a ! i = b ! i) [0..<length a])"

section \<open>JSON values\<close>

datatype json =
  JNull
| JBool bool
| JNum int
| JStr string
| JArr "json list"
| JObj "(string \<times> json) list"

text \<open>Reading a property: an object has the properties of its list, nothing else has any.\<close>

fun field :: "string \<Rightarrow> json \<Rightarrow> json option" where
  "field k (JObj kvs) = map_of kvs k"
| "field k _ = None"

text \<open>Setting a property of an object literal: an existing key keeps its place.\<close>

fun setField :: "string \<Rightarrow> json \<Rightarrow> (string \<times> json) list \<Rightarrow> (string \<times> json) list" where
  "setField k v [] = [(k, v)]"
| "setField k v ((k', v') # kvs) =
     (if k' = k then (k, v) # kvs else (k', v') # setField k v kvs)"

text \<open>\<open>JSON.stringify\<close> of a route: a field that is undefined is left out.\<close>

definition optField :: "string \<Rightarrow> 'a option \<Rightarrow> ('a \<Rightarrow> json) \<Rightarrow> (string \<times> json) list" where
  "optField k v enc = (case v of None \<Rightarrow> [] | Some a \<Rightarrow> [(k, enc a)])"

definition jsonOfMatcher :: "matcher \<Rightarrow> json" where
  "jsonOfMatcher m = JObj (optField ''host'' (host m) (\<lambda>hs. JArr (map JStr hs)))"

definition jsonOfUpstream :: "upstream \<Rightarrow> json" where
  "jsonOfUpstream u = JObj [(''dial'', JStr (dial u))]"

definition jsonOfHandler :: "handlerObj \<Rightarrow> json" where
  "jsonOfHandler h =
     JObj ((''handler'', JStr (handler h))
           # optField ''upstreams'' (upstreams h) (\<lambda>us. JArr (map jsonOfUpstream us)))"

definition jsonOfRoute :: "CaddyRoute \<Rightarrow> json" where
  "jsonOfRoute r =
     JObj (optField ''match'' (match r) (\<lambda>ms. JArr (map jsonOfMatcher ms))
           @ optField ''handle'' (handle r) (\<lambda>hs. JArr (map jsonOfHandler hs))
           @ optField ''terminal'' (terminal r) JBool)"

text \<open>
  A value in a condition (\<open>if (dial)\<close>, \<open>!routes\<close>): null, false, zero and the empty string
  do not pass, every other value does. \<open>undefined\<close> is the \<open>None\<close> of an \<open>option\<close>.
\<close>

definition truthy :: "json \<Rightarrow> bool" where
  "truthy v =
     (case v of
        JNull \<Rightarrow> False
      | JBool b \<Rightarrow> b
      | JNum n \<Rightarrow> n \<noteq> 0
      | JStr s \<Rightarrow> s \<noteq> []
      | JArr xs \<Rightarrow> True
      | JObj kvs \<Rightarrow> True)"

text \<open>
  \<open>v == null\<close>: undefined or null. These are the two values of which no property can be
  read.
\<close>

definition nullish :: "json option \<Rightarrow> bool" where
  "nullish v = (v = None \<or> v = Some JNull)"

section \<open>The admin API client\<close>

text \<open>
  A url is the admin base url and the path segments after it; \<open>encodeURIComponent\<close>
  makes the server id one segment. The text of a response is empty, or the JSON text of a
  value, or some other text, on which \<open>JSON.parse\<close> throws.
\<close>

datatype meth = GET | POST | PUT

datatype url = Url string "string list"

record request =
  verb :: meth
  target :: url
  headers :: "(string \<times> string) list"
  body :: "json option"

datatype payload = NoText | JsonText json | OtherText string

record response =
  status :: nat
  statusText :: string
  content :: payload

text \<open>\<open>Response.ok\<close>: the status is in the range 200 to 299.\<close>

definition ok :: "response \<Rightarrow> bool" where
  "ok r = (200 \<le> status r \<and> status r \<le> 299)"

text \<open>
  The exceptions of the module. \<open>HttpError s t u x\<close> is the \<open>Error\<close> of \<open>req\<close> with the
  message \<open>`HTTP ${s} ${t} for ${u}\n${x}`\<close>, given by the four parts interpolated.
  \<open>Unmodelled\<close> is not an exception of the program: it marks the one place where the
  embedding does not follow it (see \<open>loopItems\<close>).
\<close>

datatype error =
  HttpError nat string url payload
| SyntaxError
| TypeError string
| PortError
| Unmodelled string

text \<open>What a run does to the outside, in order.\<close>

datatype event =
  Fetch request
| ConsoleLog "string list"
| ConsoleWarn "string list"
| ConsoleError "string list"
| Probe nat
| ServerClose

text \<open>
  A call returns, throws, or ends the process (\<open>Deno.exit\<close>). The state is the world
  behind the admin url together with the events so far.
\<close>

datatype 'a outcome = Return 'a | Throw error | Exit nat

record 'w state =
  world :: 'w
  trace :: "event list"

type_synonym ('a, 'w) io = "'w state \<Rightarrow> 'a outcome \<times> 'w state"

definition ret :: "'a \<Rightarrow> ('a, 'w) io" where
  "ret a s = (Return a, s)"

definition throw :: "error \<Rightarrow> ('a, 'w) io" where
  "throw e s = (Throw e, s)"

definition exit :: "nat \<Rightarrow> ('a, 'w) io" where
  "exit n s = (Exit n, s)"

definition andThen :: "('a, 'w) io \<Rightarrow> ('a \<Rightarrow> ('b, 'w) io) \<Rightarrow> ('b, 'w) io" where
  "andThen m f s =
     (case m s of
        (Return a, s') \<Rightarrow> f a s'
      | (Throw e, s') \<Rightarrow> (Throw e, s')
      | (Exit n, s') \<Rightarrow> (Exit n, s'))"

definition emit :: "event \<Rightarrow> (unit, 'w) io" where
  "emit ev s = (Return (), s\<lparr>trace := trace s @ [ev]\<rparr>)"

text \<open>\<open>try { ... } catch { }\<close> with an empty handler.\<close>

definition ignoreThrow :: "(unit, 'w) io \<Rightarrow> (unit, 'w) io" where
  "ignoreThrow m s =
     (case m s of
        (Throw e, s') \<Rightarrow> (Return (), s')
      | other \<Rightarrow> other)"

text \<open>
  What is outside the module: how the admin endpoint answers a request (and what that
  does to the world behind it), which local ports accept a connection, the content of
  \<open>/etc/hosts\<close> when it can be read, and the runtime of the slug functions.
\<close>

record 'w env =
  serve :: "request \<Rightarrow> 'w \<Rightarrow> response \<times> 'w"
  portActive :: "nat \<Rightarrow> bool"
  hostsFile :: "string option"
  runtime :: sys

text \<open>The resolved options, \<open>InternalOptions\<close>.\<close>

record InternalOptions =
  adminUrl :: string
  serverId :: string
  listen :: "string list"
  nameSource :: nameSource
  tld :: string
  domain :: "string option"
  failOnActiveDomain :: bool
  insertFirst :: bool
  verbose :: bool

definition tag :: string where
  "tag = ''[vite-plugin-localcaddy]''"

definition log :: "InternalOptions \<Rightarrow> string \<Rightarrow> (unit, 'w) io" where
  "log opt msg = (if verbose opt then emit (ConsoleLog [tag, msg]) else ret ())"

definition warn :: "string \<Rightarrow> (unit, 'w) io" where
  "warn msg = emit (ConsoleWarn [tag, msg])"

definition err :: "string \<Rightarrow> (unit, 'w) io" where
  "err msg = emit (ConsoleError [tag, msg])"

text \<open>The \<open>init\<close> of \<open>put\<close> and of \<open>post\<close> with its url, and the request of a read.\<close>

definition putRequest :: "url \<Rightarrow> json \<Rightarrow> request" where
  "putRequest u b =
     \<lparr>verb = PUT, target = u, headers = [(''content-type'', ''application/json'')],
      body = Some b\<rparr>"

definition postRequest :: "url \<Rightarrow> json \<Rightarrow> request" where
  "postRequest u b =
     \<lparr>verb = POST, target = u, headers = [(''content-type'', ''application/json'')],
      body = Some b\<rparr>"

definition getRequest :: "url \<Rightarrow> request" where
  "getRequest u = \<lparr>verb = GET, target = u, headers = [], body = None\<rparr>"

text \<open>\<open>await fetch(url, init)\<close>: the request goes out and the endpoint answers.\<close>

definition fetch :: "'w env \<Rightarrow> request \<Rightarrow> (response, 'w) io" where
  "fetch e rq s =
     (let (r, w) = serve e rq (world s)
      in (Return r, \<lparr>world = w, trace = trace s @ [Fetch rq]\<rparr>))"

text \<open>\<open>txt ? JSON.parse(txt) : undefined\<close>; \<open>None\<close> is \<open>undefined\<close>.\<close>

definition parseText :: "payload \<Rightarrow> (json option, 'w) io" where
  "parseText t =
     (case t of
        NoText \<Rightarrow> ret None
      | JsonText v \<Rightarrow> ret (Some v)
      | OtherText x \<Rightarrow> throw SyntaxError)"

definition req :: "'w env \<Rightarrow> url \<Rightarrow> request \<Rightarrow> (json option, 'w) io" where
  "req e u init =
     andThen (fetch e (init\<lparr>target := u\<rparr>)) (\<lambda>r.
       if \<not> ok r then throw (HttpError (status r) (statusText r) u (content r))
       else parseText (content r))"

definition get :: "'w env \<Rightarrow> url \<Rightarrow> (json option, 'w) io" where
  "get e u =
     andThen (fetch e (getRequest u)) (\<lambda>r.
       if \<not> ok r then ret None
       else parseText (content r))"

definition post :: "'w env \<Rightarrow> url \<Rightarrow> json \<Rightarrow> (json option, 'w) io" where
  "post e u b = req e u (postRequest u b)"

definition put :: "'w env \<Rightarrow> url \<Rightarrow> json \<Rightarrow> (json option, 'w) io" where
  "put e u b = req e u (putRequest u b)"

text \<open>\<open>fetch(p, { method: "GET" })\<close>, used for its status only.\<close>

definition probeGet :: "'w env \<Rightarrow> url \<Rightarrow> (response, 'w) io" where
  "probeGet e u = fetch e (getRequest u)"

section \<open>Bootstrap\<close>

definition configUrl :: "InternalOptions \<Rightarrow> string list \<Rightarrow> url" where
  "configUrl opt p = Url (adminUrl opt) (''config'' # p)"

definition serverBase :: "InternalOptions \<Rightarrow> string list" where
  "serverBase opt = [''apps'', ''http'', ''servers'', serverId opt]"

definition policiesPath :: "string list" where
  "policiesPath = [''apps'', ''tls'', ''automation'', ''policies'']"

text \<open>\<open>xs.join(", ")\<close>.\<close>

fun joinComma :: "string list \<Rightarrow> string" where
  "joinComma [] = []"
| "joinComma [x] = x"
| "joinComma (x # y # ys) = x @ '', '' @ joinComma (y # ys)"

text \<open>The policy object \<open>{ subjects: [domain], issuers: [{ module: "internal" }] }\<close>.\<close>

definition internalPolicy :: "string \<Rightarrow> json" where
  "internalPolicy d =
     JObj [(''subjects'', JArr [JStr d]),
           (''issuers'', JArr [JObj [(''module'', JStr ''internal'')]])]"

definition serverObject :: "InternalOptions \<Rightarrow> json" where
  "serverObject opt = JObj [(''listen'', JArr (map JStr (listen opt))), (''routes'', JArr [])]"

text \<open>The body of the \<open>/load\<close> request that seeds an empty configuration.\<close>

definition seedConfig :: "InternalOptions \<Rightarrow> string \<Rightarrow> json" where
  "seedConfig opt d =
     JObj [(''apps'',
       JObj [(''http'', JObj [(''servers'', JObj [(serverId opt, serverObject opt)])]),
             (''tls'', JObj [(''automation'', JObj [(''policies'', JArr [internalPolicy d])])])])]"

definition ensurePath :: "'w env \<Rightarrow> url \<Rightarrow> json \<Rightarrow> (unit, 'w) io" where
  "ensurePath e p pl =
     andThen (probeGet e p) (\<lambda>r.
       if \<not> ok r then andThen (put e p pl) (\<lambda>_. ret ()) else ret ())"

text \<open>
  \<open>new Set(xs)\<close> read back in insertion order: the elements of \<open>xs\<close>, each at its first
  occurrence.
\<close>

fun setFrom :: "'a list \<Rightarrow> 'a list \<Rightarrow> 'a list" where
  "setFrom acc [] = acc"
| "setFrom acc (x # xs) = (if x \<in> set acc then setFrom acc xs else setFrom (acc @ [x]) xs)"

definition newSet :: "'a list \<Rightarrow> 'a list" where
  "newSet xs = setFrom [] xs"

text \<open>
  \<open>Array.from(new Set([...(current ?? []), ...want]))\<close> with \<open>want = new Set(opt.listen)\<close>,
  for a \<open>current\<close> that is what its declared type says, a list of strings.
\<close>

definition nextListen :: "string list \<Rightarrow> string list \<Rightarrow> string list" where
  "nextListen current wanted = newSet (current @ newSet wanted)"

text \<open>
  The cast \<open>as string[] | undefined\<close> of the value read at the listen path checks nothing,
  so the block runs on whatever was read. A value as the running program holds it is a
  cell: a primitive value (null, a boolean, a number, a string), which \<open>===\<close> and a \<open>Set\<close>
  compare by value, or an array or object, which is equal to itself only. The number of an
  \<open>Object\<close> cell is the position it was read from, and stands for the reference.
\<close>

datatype cell = Value json | Object nat json

definition primitive :: "json \<Rightarrow> bool" where
  "primitive v = (case v of JArr xs \<Rightarrow> False | JObj kvs \<Rightarrow> False | _ \<Rightarrow> True)"

fun cellsFrom :: "nat \<Rightarrow> json list \<Rightarrow> cell list" where
  "cellsFrom i [] = []"
| "cellsFrom i (v # vs) = (if primitive v then Value v else Object i v) # cellsFrom (i + 1) vs"

definition cellsOf :: "json list \<Rightarrow> cell list" where
  "cellsOf xs = cellsFrom 0 xs"

definition jsonOf :: "cell \<Rightarrow> json" where
  "jsonOf c = (case c of Value v \<Rightarrow> v | Object i v \<Rightarrow> v)"

text \<open>
  The elements of \<open>current ?? []\<close>, which the spread \<open>[...(current ?? [])]\<close> and the index
  loop of \<open>arraysEqual\<close> both see: none for undefined and null, the elements of an array,
  the characters of a string. Any other value (a boolean, a number, an object) is not
  iterable, and the spread throws a \<open>TypeError\<close>.
\<close>

definition spread :: "json option \<Rightarrow> cell list option" where
  "spread v =
     (case v of
        None \<Rightarrow> Some []
      | Some JNull \<Rightarrow> Some []
      | Some (JArr xs) \<Rightarrow> Some (cellsOf xs)
      | Some (JStr s) \<Rightarrow> Some (map (\<lambda>c. Value (JStr [c])) s)
      | Some _ \<Rightarrow> None)"

definition spreadCurrent :: "json option \<Rightarrow> (cell list, 'w) io" where
  "spreadCurrent v =
     (case spread v of
        Some current \<Rightarrow> ret current
      | None \<Rightarrow> throw (TypeError ''current is not iterable''))"

text \<open>
  \<open>xs.join(sep)\<close> on parsed values. An element that is null gives the empty text, a
  boolean, number or string its text, an array the join of its elements with a comma, an
  object \<open>[object Object]\<close>; an object with a property \<open>toString\<close> of its own (which, being
  parsed, is no function) cannot be converted and throws a \<open>TypeError\<close>, here \<open>None\<close>.
\<close>

fun joinAll :: "string \<Rightarrow> string option list \<Rightarrow> string option" where
  "joinAll sep [] = Some []"
| "joinAll sep [x] = x"
| "joinAll sep (x # y # ys) =
     (case x of
        None \<Rightarrow> None
      | Some a \<Rightarrow>
          (case joinAll sep (y # ys) of
             None \<Rightarrow> None
           | Some b \<Rightarrow> Some (a @ sep @ b)))"

primrec joinText :: "json \<Rightarrow> string option" where
  "joinText JNull = Some []"
| "joinText (JBool b) = Some (if b then ''true'' else ''false'')"
| "joinText (JNum n) = Some (showInt n)"
| "joinText (JStr s) = Some s"
| "joinText (JArr xs) = joinAll '','' (map joinText xs)"
| "joinText (JObj kvs) =
     (if map_of kvs ''toString'' \<noteq> None then None else Some ''[object Object]'')"

definition joinCells :: "cell list \<Rightarrow> (string, 'w) io" where
  "joinCells cs =
     (case joinAll '', '' (map (\<lambda>c. joinText (jsonOf c)) cs) of
        Some txt \<Rightarrow> ret txt
      | None \<Rightarrow> throw (TypeError ''Cannot convert object to primitive value''))"

definition quoted :: "string \<Rightarrow> string" where
  "quoted s = [CHR 0x27] @ s @ [CHR 0x27]"

text \<open>
  The test of \<open>findIndex\<close> in \<open>ensureTlsPolicy\<close>: the subjects are an array holding the
  domain and the issuers are an array with an element whose module is \<open>internal\<close>.
\<close>

definition policyMatches :: "string \<Rightarrow> json \<Rightarrow> bool" where
  "policyMatches d p =
     ((case field ''subjects'' p of Some (JArr ss) \<Rightarrow> JStr d \<in> set ss | _ \<Rightarrow> False)
      \<and> (case field ''issuers'' p of
            Some (JArr is) \<Rightarrow> list_ex (\<lambda>i. field ''module'' i = Some (JStr ''internal'')) is
          | _ \<Rightarrow> False))"

fun findIndexFrom :: "int \<Rightarrow> ('a \<Rightarrow> bool) \<Rightarrow> 'a list \<Rightarrow> int" where
  "findIndexFrom i P [] = -1"
| "findIndexFrom i P (x # xs) = (if P x then i else findIndexFrom (i + 1) P xs)"

definition findIndex :: "('a \<Rightarrow> bool) \<Rightarrow> 'a list \<Rightarrow> int" where
  "findIndex P xs = findIndexFrom 0 P xs"

text \<open>
  The value read at the policies path, with \<open>?? []\<close>; \<open>findIndex\<close> exists on an array
  only, so any other value throws a \<open>TypeError\<close>.
\<close>

definition policiesOf :: "json option \<Rightarrow> json list option" where
  "policiesOf v =
     (case v of
        None \<Rightarrow> Some []
      | Some JNull \<Rightarrow> Some []
      | Some (JArr ps) \<Rightarrow> Some ps
      | Some _ \<Rightarrow> None)"

definition castPolicies :: "json option \<Rightarrow> (json list, 'w) io" where
  "castPolicies v =
     (case policiesOf v of
        Some ps \<Rightarrow> ret ps
      | None \<Rightarrow> throw (TypeError ''policies.findIndex is not a function''))"

definition ensureTlsPolicy :: "'w env \<Rightarrow> InternalOptions \<Rightarrow> string \<Rightarrow> (unit, 'w) io" where
  "ensureTlsPolicy e opt d =
     andThen (ensurePath e (configUrl opt [''apps'']) (JObj [])) (\<lambda>_.
     andThen (probeGet e (configUrl opt [''apps'', ''tls''])) (\<lambda>haveTls.
     andThen
       (if \<not> ok haveTls then
          andThen (put e (configUrl opt [''apps'', ''tls''])
                     (JObj [(''automation'', JObj [(''policies'', JArr [])])])) (\<lambda>_. ret ())
        else
          andThen (probeGet e (configUrl opt [''apps'', ''tls'', ''automation''])) (\<lambda>auto.
          andThen
            (if \<not> ok auto then
               andThen (put e (configUrl opt [''apps'', ''tls'', ''automation''])
                          (JObj [(''policies'', JArr [])])) (\<lambda>_. ret ())
             else ret ()) (\<lambda>_.
          andThen (probeGet e (configUrl opt policiesPath)) (\<lambda>pol.
            if \<not> ok pol then
              andThen (put e (configUrl opt policiesPath) (JArr [])) (\<lambda>_. ret ())
            else ret ())))) (\<lambda>_.
     andThen (get e (configUrl opt policiesPath)) (\<lambda>v.
     andThen (castPolicies v) (\<lambda>policies.
       if findIndex (policyMatches d) policies = -1 then
         andThen (post e (configUrl opt policiesPath) (internalPolicy d)) (\<lambda>_.
           log opt (''Added TLS automation policy (internal) for '' @ d))
       else log opt (''TLS automation policy already present for '' @ d))))))"

text \<open>
  The else branch of \<open>ensureCaddyServerExists\<close>, for a server that is there, in its two
  blocks: the listen addresses, then the \<open>automatic_https\<close> flag.
\<close>

definition listenUrl :: "InternalOptions \<Rightarrow> url" where
  "listenUrl opt = configUrl opt (serverBase opt @ [''listen''])"

definition autoUrl :: "InternalOptions \<Rightarrow> url" where
  "autoUrl opt = configUrl opt (serverBase opt @ [''automatic_https''])"

text \<open>
  The listen block. The template literal of the log line is evaluated before \<open>log\<close> is
  called, so \<open>next.join(", ")\<close> runs, and can throw, whether or not the line is printed.
\<close>

definition syncListen :: "'w env \<Rightarrow> InternalOptions \<Rightarrow> (unit, 'w) io" where
  "syncListen e opt =
     andThen (get e (listenUrl opt)) (\<lambda>v.
     andThen (spreadCurrent v) (\<lambda>current.
     let want = newSet (listen opt);
         next = newSet (current @ map (\<lambda>a. Value (JStr a)) want) in
       if \<not> arraysEqual current next then
         andThen (put e (listenUrl opt) (JArr (map jsonOf next))) (\<lambda>_.
         andThen (joinCells next) (\<lambda>txt.
           log opt (''Updated '' @ quoted (serverId opt) @ '' listen ''
                    @ [CHR 0xE2, CHR 0x86, CHR 0x92] @ '' '' @ txt)))
       else ret ()))"

definition enableAutoHttps :: "'w env \<Rightarrow> InternalOptions \<Rightarrow> (unit, 'w) io" where
  "enableAutoHttps e opt =
     andThen (get e (autoUrl opt)) (\<lambda>auto.
       case auto of
         Some (JObj kvs) \<Rightarrow>
           (if map_of kvs ''disable'' = Some (JBool True) then
              andThen (put e (autoUrl opt) (JObj (setField ''disable'' (JBool False) kvs))) (\<lambda>_.
                log opt (''Re-enabled automatic HTTPS on '' @ quoted (serverId opt)))
            else ret ())
       | _ \<Rightarrow> ret ())"

definition updateServer :: "'w env \<Rightarrow> InternalOptions \<Rightarrow> (unit, 'w) io" where
  "updateServer e opt = andThen (syncListen e opt) (\<lambda>_. enableAutoHttps e opt)"

text \<open>The then branch: the parents, then the server.\<close>

definition createServer :: "'w env \<Rightarrow> InternalOptions \<Rightarrow> (unit, 'w) io" where
  "createServer e opt =
     andThen (ensurePath e (configUrl opt [''apps'']) (JObj [])) (\<lambda>_.
     andThen (ensurePath e (configUrl opt [''apps'', ''http'']) (JObj [(''servers'', JObj [])])) (\<lambda>_.
     andThen (ensurePath e (configUrl opt [''apps'', ''http'', ''servers'']) (JObj [])) (\<lambda>_.
     andThen (put e (configUrl opt (serverBase opt)) (serverObject opt)) (\<lambda>_.
       log opt (''Created server '' @ quoted (serverId opt) @ '' on '' @ joinComma (listen opt))))))"

definition ensureCaddyServerExists :: "'w env \<Rightarrow> InternalOptions \<Rightarrow> string \<Rightarrow> (unit, 'w) io" where
  "ensureCaddyServerExists e opt d =
     andThen (get e (configUrl opt [])) (\<lambda>root.
       if nullish root then
         andThen (post e (Url (adminUrl opt) [''load'']) (seedConfig opt d)) (\<lambda>_.
           log opt (''Initialized Caddy config; server '' @ quoted (serverId opt) @ '' on ''
                    @ joinComma (listen opt) @ ''; TLS internal for '' @ d))
       else
         andThen (probeGet e (configUrl opt (serverBase opt))) (\<lambda>haveServer.
         andThen (if \<not> ok haveServer then createServer e opt else updateServer e opt) (\<lambda>_.
           ensureTlsPolicy e opt d)))"

section \<open>Route reconciliation\<close>

definition routesPath :: "InternalOptions \<Rightarrow> string list" where
  "routesPath opt = serverBase opt @ [''routes'']"

text \<open>
  The cast \<open>as CaddyRoute[] | undefined\<close> of \<open>getRoutes\<close> checks nothing: the result is
  the value that was read.
\<close>

definition getRoutes :: "'w env \<Rightarrow> InternalOptions \<Rightarrow> (json option, 'w) io" where
  "getRoutes e opt = get e (configUrl opt (routesPath opt))"

subsection \<open>The routes as they are read\<close>

text \<open>
  \<open>findRouteByHost\<close> and \<open>extractUpstreamPort\<close> are called in \<open>wireDomain\<close> on the value
  read from the admin endpoint, whatever it is. The functions below are these two
  functions on parsed values, with the property reads of the language: reading a property
  of null or of undefined throws a \<open>TypeError\<close>, reading a property that a value does not
  have gives undefined. On the values of the declared types they agree with the functions
  of the section on routes.

  First the elements \<open>routes[0]\<close>, ..., \<open>routes[routes.length - 1]\<close> that the loop of
  \<open>findRouteByHost\<close> visits, for a value that passed the test \<open>!routes\<close>. An array has its
  elements and a string its characters. A boolean or a number has no \<open>length\<close>, and the loop
  does not run. For an object the bound is its property \<open>length\<close>, compared as a number
  (undefined is not a number, null and false count as 0, true as 1), and the element at
  \<open>i\<close> is the property named by the decimal digits of \<open>i\<close>, undefined when there is none.
  When \<open>length\<close> is a string, an array or an object the comparison converts it to a number
  by rules that are not embedded here; the result is then \<open>None\<close>.
\<close>

definition loopItems :: "json \<Rightarrow> json option list option" where
  "loopItems v =
     (case v of
        JArr rs \<Rightarrow> Some (map Some rs)
      | JStr s \<Rightarrow> Some (map (\<lambda>c. Some (JStr [c])) s)
      | JObj kvs \<Rightarrow>
          (case map_of kvs ''length'' of
             None \<Rightarrow> Some []
           | Some JNull \<Rightarrow> Some []
           | Some (JBool b) \<Rightarrow> Some (map (\<lambda>i. map_of kvs (showNat i)) [0..<(if b then 1 else 0)])
           | Some (JNum n) \<Rightarrow> Some (map (\<lambda>i. map_of kvs (showNat i)) [0..<nat n])
           | Some _ \<Rightarrow> None)
      | _ \<Rightarrow> Some [])"

text \<open>The inner loop: \<open>Array.isArray(m.host) && m.host.includes(host)\<close> for each matcher.\<close>

fun matchesHostJs :: "json list \<Rightarrow> string \<Rightarrow> error + bool" where
  "matchesHostJs [] h = Inr False"
| "matchesHostJs (m # ms) h =
     (if m = JNull then Inl (TypeError ''Cannot read properties of null (reading host)'')
      else if (case field ''host'' m of Some (JArr hs) \<Rightarrow> JStr h \<in> set hs | _ \<Rightarrow> False)
      then Inr True
      else matchesHostJs ms h)"

text \<open>The outer loop, from index \<open>i\<close> on: \<open>r.match\<close> is read of every element visited.\<close>

fun findFromJs :: "int \<Rightarrow> json option list \<Rightarrow> string \<Rightarrow> error + json found" where
  "findFromJs i [] h = Inr \<lparr>route = None, index = -1\<rparr>"
| "findFromJs i (r # rs) h =
     (case r of
        None \<Rightarrow> Inl (TypeError ''Cannot read properties of undefined (reading match)'')
      | Some v \<Rightarrow>
          if v = JNull then Inl (TypeError ''Cannot read properties of null (reading match)'')
          else
            (case matchesHostJs (case field ''match'' v of Some (JArr ms) \<Rightarrow> ms | _ \<Rightarrow> []) h of
               Inl er \<Rightarrow> Inl er
             | Inr hit \<Rightarrow>
                 if hit then Inr \<lparr>route = Some v, index = i\<rparr> else findFromJs (i + 1) rs h))"

definition findRouteByHostJs :: "json option \<Rightarrow> string \<Rightarrow> error + json found" where
  "findRouteByHostJs routes h =
     (case routes of
        None \<Rightarrow> Inr \<lparr>route = None, index = -1\<rparr>
      | Some v \<Rightarrow>
          if \<not> truthy v then Inr \<lparr>route = None, index = -1\<rparr>
          else
            (case loopItems v of
               Some rs \<Rightarrow> findFromJs 0 rs h
             | None \<Rightarrow> Inl (Unmodelled ''routes.length'')))"

text \<open>
  The loop of \<open>extractUpstreamPort\<close>. \<open>ups[0]?.dial\<close> is undefined when the first upstream
  is null or has no \<open>dial\<close>; a \<open>dial\<close> that passes \<open>if (dial)\<close> and is not a string has no
  method \<open>trim\<close>, and the call throws.
\<close>

fun scanHandlersJs :: "json list \<Rightarrow> error + nat option" where
  "scanHandlersJs [] = Inr None"
| "scanHandlersJs (h # hs) =
     (if h = JNull then Inl (TypeError ''Cannot read properties of null (reading handler)'')
      else if field ''handler'' h = Some (JStr ''reverse_proxy'') then
        (case field ''upstreams'' h of
           Some (JArr (u # us)) \<Rightarrow>
             (case field ''dial'' u of
                None \<Rightarrow> scanHandlersJs hs
              | Some (JStr s) \<Rightarrow>
                  (if s \<noteq> [] then
                     (case execPort (trim s) of
                        Some ds \<Rightarrow> Inr (Some (Number ds))
                      | None \<Rightarrow> scanHandlersJs hs)
                   else scanHandlersJs hs)
              | Some dl \<Rightarrow>
                  (if truthy dl then Inl (TypeError ''dial.trim is not a function'')
                   else scanHandlersJs hs))
         | _ \<Rightarrow> scanHandlersJs hs)
      else scanHandlersJs hs)"

definition extractUpstreamPortJs :: "json \<Rightarrow> error + nat option" where
  "extractUpstreamPortJs r =
     (if r = JNull then Inl (TypeError ''Cannot read properties of null (reading handle)'')
      else scanHandlersJs (case field ''handle'' r of Some (JArr hs) \<Rightarrow> hs | _ \<Rightarrow> []))"

definition addRoute :: "'w env \<Rightarrow> InternalOptions \<Rightarrow> string \<Rightarrow> nat \<Rightarrow> (unit, 'w) io" where
  "addRoute e opt d port =
     (let r = newRoute d port in
      if insertFirst opt then
        andThen (put e (configUrl opt (routesPath opt @ [''0''])) (jsonOfRoute r)) (\<lambda>_. ret ())
      else
        andThen (post e (configUrl opt (routesPath opt)) (jsonOfRoute r)) (\<lambda>_. ret ()))"

definition replaceRouteAt :: "'w env \<Rightarrow> InternalOptions \<Rightarrow> int \<Rightarrow> string \<Rightarrow> nat \<Rightarrow> (unit, 'w) io" where
  "replaceRouteAt e opt i d port =
     andThen (put e (configUrl opt (routesPath opt @ [showInt i])) (jsonOfRoute (newRoute d port)))
       (\<lambda>_. ret ())"

subsection \<open>The hosts check\<close>

definition endsWith :: "string \<Rightarrow> string \<Rightarrow> bool" where
  "endsWith s t = (length t \<le> length s \<and> drop (length s - length t) s = t)"

text \<open>\<open>hosts.split(/\r?\n/)\<close>; the first argument is the current line, reversed.\<close>

fun splitLines :: "string \<Rightarrow> string \<Rightarrow> string list" where
  "splitLines cur [] = [rev cur]"
| "splitLines cur [c] = (if c = CHR 0x0A then [rev cur, []] else [rev (c # cur)])"
| "splitLines cur (c # d # ds) =
     (if c = CHR 0x0A then rev cur # splitLines [] (d # ds)
      else if c = CHR 0x0D \<and> d = CHR 0x0A then rev cur # splitLines [] ds
      else splitLines (c # cur) (d # ds))"

text \<open>\<open>line.split(/\s+/)\<close>: a run of white space separates two entries.\<close>

function splitSpaces :: "string \<Rightarrow> string \<Rightarrow> string list" where
  "splitSpaces cur [] = [rev cur]"
| "splitSpaces cur (c # cs) =
     (if isSpace c then rev cur # splitSpaces [] (dropWhile isSpace cs)
      else splitSpaces (c # cur) cs)"
  by pat_completeness auto
termination
  by (relation "measure (\<lambda>(cur, s). length s)") (auto simp: length_dropWhile_le less_Suc_eq_le)

definition hostsLineHas :: "string \<Rightarrow> string \<Rightarrow> bool" where
  "hostsLineHas d line =
     (if (case trim line of c # cs \<Rightarrow> c = CHR ''#'' | [] \<Rightarrow> False) then False
      else d \<in> set (drop 1 (splitSpaces [] line)))"

definition hostsHint :: "string \<Rightarrow> string" where
  "hostsHint d =
     [CHR 0x0A] @ ''    sudo bash -c '' @ [CHR 0x22] @ ''echo '' @ quoted (''127.0.0.1 '' @ d)
     @ '' >> /etc/hosts'' @ [CHR 0x22]"

definition checkHostsForLocal :: "'w env \<Rightarrow> string \<Rightarrow> (unit, 'w) io" where
  "checkHostsForLocal e d =
     (if \<not> endsWith d ''.local'' then ret ()
      else
        (case hostsFile e of
           Some hosts \<Rightarrow>
             (if \<not> list_ex (hostsLineHas d) (splitLines [] hosts) then
                warn (''Missing /etc/hosts entry for '' @ d @ ''. Add it with:'' @ hostsHint d)
              else ret ())
         | None \<Rightarrow>
             warn (''Could not read /etc/hosts to verify '' @ d @ ''. If requests fail, add:''
                   @ hostsHint d)))"

subsection \<open>The main flow\<close>

text \<open>
  The line of \<open>printWhereToBrowse\<close>, given by the url it shows and the two fixed texts
  around it (the colours come from \<open>@std/fmt/colors\<close>).
\<close>

definition browseUrl :: "InternalOptions \<Rightarrow> string \<Rightarrow> string" where
  "browseUrl opt d =
     (case pickHttpsPort (listen opt) of
        Some p \<Rightarrow> (if p \<noteq> 0 \<and> p \<noteq> 443 then ''https://'' @ d @ '':'' @ showNat p
                   else ''https://'' @ d)
      | None \<Rightarrow> ''https://'' @ d)"

definition printWhereToBrowse :: "InternalOptions \<Rightarrow> string \<Rightarrow> (unit, 'w) io" where
  "printWhereToBrowse opt d = emit (ConsoleLog [''Domain'', browseUrl opt d, ''(via caddy)''])"

text \<open>
  The dev server as \<open>wireDomain\<close> uses it: the port of \<open>httpServer.address()\<close> when there
  is one, and what \<open>close\<close> does when it is there.
\<close>

datatype closeFn = NoClose | CloseResolves | CloseRejects

record viteServer =
  address :: "nat option"
  close :: closeFn

definition closeServer :: "viteServer \<Rightarrow> (unit, 'w) io" where
  "closeServer server =
     (case close server of
        NoClose \<Rightarrow> ret ()
      | CloseResolves \<Rightarrow> emit ServerClose
      | CloseRejects \<Rightarrow> andThen (emit ServerClose) (\<lambda>_. throw (TypeError ''close'')))"

text \<open>
  \<open>isPortActive(existingPort)\<close> as the main flow sees it: a probe of the port, answered
  by the environment.
\<close>

definition probePort :: "'w env \<Rightarrow> nat \<Rightarrow> (bool, 'w) io" where
  "probePort e port = andThen (emit (Probe port)) (\<lambda>_. ret (portActive e port))"

definition conflictMessage :: "string \<Rightarrow> nat \<Rightarrow> string" where
  "conflictMessage d existingPort =
     ''Domain '' @ quoted d @ '' is already mapped to active port '' @ showNat existingPort
     @ ''. Refusing to overwrite. Stop that service or choose a different domain.''"

text \<open>A synchronous call that throws inside the async function.\<close>

definition lift :: "error + 'a \<Rightarrow> ('a, 'w) io" where
  "lift x = (case x of Inl er \<Rightarrow> throw er | Inr a \<Rightarrow> ret a)"

text \<open>
  The part of \<open>wireDomain\<close> after the routes are read. A route that was found passes the
  test \<open>!route\<close>: it has a \<open>match\<close> that is an array, so it is an object. The test
  \<open>!existingPort\<close> holds of undefined and of zero.
\<close>

definition reconcile ::
  "'w env \<Rightarrow> InternalOptions \<Rightarrow> viteServer \<Rightarrow> string \<Rightarrow> nat \<Rightarrow> json option
   \<Rightarrow> (unit, 'w) io" where
  "reconcile e opt server d vitePort routes =
     andThen (lift (findRouteByHostJs routes d)) (\<lambda>f.
       case route f of
         None \<Rightarrow> andThen (addRoute e opt d vitePort) (\<lambda>_. printWhereToBrowse opt d)
       | Some r \<Rightarrow>
           andThen (lift (extractUpstreamPortJs r)) (\<lambda>existing.
             case existing of
               None \<Rightarrow>
                 andThen (replaceRouteAt e opt (index f) d vitePort) (\<lambda>_. printWhereToBrowse opt d)
             | Some existingPort \<Rightarrow>
                 if existingPort = 0 then
                   andThen (replaceRouteAt e opt (index f) d vitePort) (\<lambda>_. printWhereToBrowse opt d)
                 else
                   andThen (probePort e existingPort) (\<lambda>active.
                     if active then
                       (if existingPort = vitePort then printWhereToBrowse opt d
                        else if failOnActiveDomain opt then
                          andThen (err (conflictMessage d existingPort)) (\<lambda>_.
                          andThen (ignoreThrow (closeServer server)) (\<lambda>_.
                            exit 1))
                        else warn (conflictMessage d existingPort))
                     else
                       andThen
                         (if existingPort \<noteq> vitePort
                          then replaceRouteAt e opt (index f) d vitePort else ret ()) (\<lambda>_.
                         printWhereToBrowse opt d))))"

definition wireDomain :: "'w env \<Rightarrow> InternalOptions \<Rightarrow> viteServer \<Rightarrow> (unit, 'w) io" where
  "wireDomain e opt server =
     (case address server of
        None \<Rightarrow> throw PortError
      | Some vitePort \<Rightarrow>
          if vitePort = 0 then throw PortError
          else
            (let d = computeDomain (runtime e)
                       \<lparr>domainOptions.domain = domain opt, nameSource = Some (nameSource opt),
                        tld = Some (tld opt), cwd = None\<rparr>
             in
             andThen (ensureCaddyServerExists e opt d) (\<lambda>_.
             andThen (checkHostsForLocal e d) (\<lambda>_.
             andThen (getRoutes e opt) (\<lambda>routes.
               reconcile e opt server d vitePort routes)))))"

section \<open>The configuration tree\<close>

text \<open>
  Modelled from the spec: the configuration tree behind the admin API, which is a service
  outside the repository. Sections 4.3, 4.4 and 6 of the specification describe it as a
  tree of JSON values addressed by path, where a segment names a key of an object or, in
  decimal, an index of an array. A GET answers with the value at the path, or with an
  error status when there is none. A PUT writes the value at the path: under an object it
  creates or overwrites the key; under an array it overwrites the element at an index
  that is there ("replacement writes the full route object at its existing position"),
  and adds the element when the index is the length of the array. A POST on an array
  appends to it, and a POST on \<open>/load\<close> replaces the whole tree. A successful write answers
  with an empty text. The specification names a PUT at index 0 also for the insertion of
  a new route before the routes that are there; one request cannot both overwrite and
  insert, and where there are routes the tree overwrites. No theorem here is about the
  addition of a route.
\<close>

text \<open>The index that a path segment names: the segment is the number in decimal.\<close>

definition segIndex :: "string \<Rightarrow> nat option" where
  "segIndex k =
     (if k \<noteq> [] \<and> list_all isDigit k \<and> showNat (Number k) = k then Some (Number k) else None)"

fun child :: "string \<Rightarrow> json \<Rightarrow> json option" where
  "child k (JObj kvs) = map_of kvs k"
| "child k (JArr xs) =
     (case segIndex k of
        Some i \<Rightarrow> if i < length xs then Some (xs ! i) else None
      | None \<Rightarrow> None)"
| "child k _ = None"

fun setChild :: "string \<Rightarrow> json \<Rightarrow> json \<Rightarrow> json option" where
  "setChild k x (JObj kvs) = Some (JObj (setField k x kvs))"
| "setChild k x (JArr xs) =
     (case segIndex k of
        Some i \<Rightarrow>
          if i < length xs then Some (JArr (xs[i := x]))
          else if i = length xs then Some (JArr (xs @ [x]))
          else None
      | None \<Rightarrow> None)"
| "setChild k x _ = None"

fun lookup :: "string list \<Rightarrow> json \<Rightarrow> json option" where
  "lookup [] v = Some v"
| "lookup (k # p) v = (case child k v of Some c \<Rightarrow> lookup p c | None \<Rightarrow> None)"

fun store :: "string list \<Rightarrow> json \<Rightarrow> json \<Rightarrow> json option" where
  "store [] x v = Some x"
| "store [k] x v = setChild k x v"
| "store (k # k' # p) x v =
     (case child k v of
        Some c \<Rightarrow>
          (case store (k' # p) x c of
             Some c' \<Rightarrow> setChild k c' v
           | None \<Rightarrow> None)
      | None \<Rightarrow> None)"

definition okJson :: "json \<Rightarrow> response" where
  "okJson v = \<lparr>status = 200, statusText = ''OK'', content = JsonText v\<rparr>"

definition okEmpty :: response where
  "okEmpty = \<lparr>status = 200, statusText = ''OK'', content = NoText\<rparr>"

definition notFound :: response where
  "notFound = \<lparr>status = 404, statusText = ''Not Found'', content = OtherText ''not found''\<rparr>"

definition badRequest :: response where
  "badRequest = \<lparr>status = 400, statusText = ''Bad Request'', content = OtherText ''bad request''\<rparr>"

definition caddy :: "request \<Rightarrow> json \<Rightarrow> response \<times> json" where
  "caddy rq w =
     (case target rq of
        Url base (seg # p) \<Rightarrow>
          (if seg = ''config'' then
             (case verb rq of
                GET \<Rightarrow>
                  (case lookup p w of Some v \<Rightarrow> (okJson v, w) | None \<Rightarrow> (notFound, w))
              | PUT \<Rightarrow>
                  (case body rq of
                     Some x \<Rightarrow>
                       (case store p x w of
                          Some w' \<Rightarrow> (okEmpty, w')
                        | None \<Rightarrow> (badRequest, w))
                   | None \<Rightarrow> (badRequest, w))
              | POST \<Rightarrow>
                  (case (body rq, lookup p w) of
                     (Some x, Some (JArr xs)) \<Rightarrow>
                       (case store p (JArr (xs @ [x])) w of
                          Some w' \<Rightarrow> (okEmpty, w')
                        | None \<Rightarrow> (badRequest, w))
                   | _ \<Rightarrow> (badRequest, w)))
           else if seg = ''load'' \<and> p = [] \<and> verb rq = POST then
             (case body rq of Some x \<Rightarrow> (okEmpty, x) | None \<Rightarrow> (badRequest, w))
           else (notFound, w))
      | Url base [] \<Rightarrow> (notFound, w))"

text \<open>An environment on that tree; nothing listens on any port and there is no hosts file.\<close>

definition caddyEnv :: "json env" where
  "caddyEnv = \<lparr>serve = caddy, portActive = (\<lambda>_. False), hostsFile = None, runtime = sys0\<rparr>"

definition opt0 :: InternalOptions where
  "opt0 = \<lparr>adminUrl = ''http://127.0.0.1:2019'', serverId = ''vite-dev'',
           listen = ['':443'', '':80''], nameSource = Folder, tld = ''localhost'',
           domain = None, failOnActiveDomain = True, insertFirst = True, verbose = False\<rparr>"

section \<open>Reading a trace\<close>

text \<open>The requests of a trace that are not reads.\<close>

definition writes :: "event list \<Rightarrow> request list" where
  "writes t =
     List.map_filter
       (\<lambda>ev. case ev of Fetch rq \<Rightarrow> (if verb rq \<noteq> GET then Some rq else None) | _ \<Rightarrow> None) t"

section \<open>A concrete scene\<close>

text \<open>
  The scenarios of the specification: the domain \<open>app.localhost\<close>, the managed server
  with one route for it to the port \<open>p\<close>, and an environment in which exactly the ports
  of \<open>live\<close> accept a connection.
\<close>

definition optApp :: InternalOptions where
  "optApp = opt0\<lparr>domain := Some ''app.localhost''\<rparr>"

definition treeWith :: "json list \<Rightarrow> json" where
  "treeWith rs =
     JObj [(''apps'',
       JObj [(''http'', JObj [(''servers'', JObj [(''vite-dev'',
                JObj [(''listen'', JArr [JStr '':443'', JStr '':80'']), (''routes'', JArr rs)])])]),
             (''tls'', JObj [(''automation'',
                JObj [(''policies'', JArr [internalPolicy ''app.localhost''])])])])]"

definition envLive :: "nat list \<Rightarrow> json env" where
  "envLive live = caddyEnv\<lparr>portActive := (\<lambda>p. p \<in> set live)\<rparr>"

definition devServer :: "nat \<Rightarrow> viteServer" where
  "devServer p = \<lparr>address = Some p, close = CloseResolves\<rparr>"

definition start :: "json \<Rightarrow> json state" where
  "start w = \<lparr>world = w, trace = []\<rparr>"

text \<open>A route for the domain whose upstream is on another machine, on port 5173.\<close>

definition otherHostRoute :: CaddyRoute where
  "otherHostRoute =
     \<lparr>match = Some [\<lparr>host = Some [''app.localhost'']\<rparr>],
      handle = Some [\<lparr>handler = ''reverse_proxy'',
                      upstreams = Some [\<lparr>dial = ''192.168.1.7:5173''\<rparr>]\<rparr>],
      terminal = Some True\<rparr>"

section \<open>More of the scene\<close>

text \<open>The reads of \<open>ensureTlsPolicy\<close> on a tree that has the policies.\<close>

definition tlsReads :: "InternalOptions \<Rightarrow> event list" where
  "tlsReads opt = map (\<lambda>p. Fetch (getRequest (configUrl opt p)))
     [[''apps''], [''apps'', ''tls''], [''apps'', ''tls'', ''automation''], policiesPath, policiesPath]"

text \<open>
  More of the scene: options that name \<open>:443\<close> twice, options that also want \<open>:8443\<close>,
  and the tree of the managed server with a given list of policies.
\<close>

definition optDup :: InternalOptions where
  "optDup = optApp\<lparr>listen := ['':443'', '':443'']\<rparr>"

definition optMore :: InternalOptions where
  "optMore = optApp\<lparr>listen := ['':443'', '':8443'']\<rparr>"

definition treePolicies :: "json list \<Rightarrow> json" where
  "treePolicies ps =
     JObj [(''apps'',
       JObj [(''http'', JObj [(''servers'', JObj [(''vite-dev'',
                JObj [(''listen'', JArr [JStr '':443'', JStr '':80'']), (''routes'', JArr [])])])]),
             (''tls'', JObj [(''automation'', JObj [(''policies'', JArr ps)])])])]"

section \<open>The port probe\<close>

text \<open>
  \<open>isPortActive\<close> creates a promise, arms a timer and starts a connection; everything
  after that happens in three callbacks, each run to its end by the event loop. The
  runtime delivers the events: the timer fires, the connection is established, or the
  connection attempt fails (also after an abort). The port, the host and the timeout
  decide which events come and in which order; the model takes that order as its input.
\<close>

datatype netEvent = TimerFires | ConnectSucceeds | ConnectFails

text \<open>
  The variables of the closure and what the callbacks did: the flag \<open>resolved\<close>, the
  value the promise was resolved with, the number of calls of \<open>resolve\<close>, whether
  \<open>abort.abort()\<close>, \<open>clearTimeout(timer)\<close> and \<open>conn.close()\<close> were called; and, for the
  runtime, whether the timer has fired and the connection attempt has settled.
\<close>

record probe =
  resolved :: bool
  settledWith :: "bool option"
  resolveCalls :: nat
  aborted :: bool
  timerCleared :: bool
  connClosed :: bool
  timerFired :: bool
  connectSettled :: bool

text \<open>The state when the executor of the promise has run.\<close>

definition pending :: probe where
  "pending =
     \<lparr>resolved = False, settledWith = None, resolveCalls = 0, aborted = False,
      timerCleared = False, connClosed = False, timerFired = False, connectSettled = False\<rparr>"

text \<open>
  The function \<open>done\<close> of the source. A promise keeps the first value it is resolved
  with.
\<close>

definition done' :: "bool \<Rightarrow> probe \<Rightarrow> probe" where
  "done' val st =
     (if resolved st then st
      else st\<lparr>resolved := True, aborted := True, resolveCalls := resolveCalls st + 1,
              settledWith := (case settledWith st of None \<Rightarrow> Some val | Some v \<Rightarrow> Some v)\<rparr>)"

text \<open>
  One event. A timer that was cleared or has fired does not fire, and a connection attempt
  settles once; otherwise the callback of the event runs: \<open>() => done(false)\<close> for the
  timer, the \<open>then\<close> handler for a connection, the \<open>catch\<close> handler for a failure.
  \<open>conn.close()\<close> is taken not to throw.
\<close>

definition onEvent :: "netEvent \<Rightarrow> probe \<Rightarrow> probe" where
  "onEvent ev st =
     (case ev of
        TimerFires \<Rightarrow>
          (if timerCleared st \<or> timerFired st then st
           else done' False (st\<lparr>timerFired := True\<rparr>))
      | ConnectSucceeds \<Rightarrow>
          (if connectSettled st then st
           else done' True (st\<lparr>connectSettled := True, timerCleared := True, connClosed := True\<rparr>))
      | ConnectFails \<Rightarrow>
          (if connectSettled st then st
           else done' False (st\<lparr>connectSettled := True, timerCleared := True\<rparr>)))"

text \<open>The probe after the events of a schedule, in order.\<close>

definition isPortActive :: "netEvent list \<Rightarrow> probe" where
  "isPortActive es = foldl (\<lambda>st ev. onEvent ev st) pending es"

section \<open>Properties of the slug\<close>

lemma slugChar_hyphen: "slugChar CHR ''-''"
  by (simp add: slugChar_def isHyphen_def)

lemma replaceRuns_class: "list_all slugChar (replaceRuns s)"
  by (induction s rule: replaceRuns.induct) (simp_all add: slugChar_hyphen)

lemma set_stripHyphens: "set (stripHyphens s) \<subseteq> set s"
  unfolding stripHyphens_def by (auto dest!: set_dropWhileD)

lemma stripHyphens_class: "list_all slugChar s \<Longrightarrow> list_all slugChar (stripHyphens s)"
  using set_stripHyphens[of s] by (auto simp: list_all_iff)

lemma stripHyphens_last: "stripHyphens s \<noteq> [] \<Longrightarrow> \<not> isHyphen (last (stripHyphens s))"
  unfolding stripHyphens_def by (simp add: last_rev hd_dropWhile)

lemma dropWhile_end_keeps_hd:
  "xs \<noteq> [] \<Longrightarrow> \<not> P (hd xs) \<Longrightarrow> rev (dropWhile Q (rev xs)) \<noteq> []
   \<Longrightarrow> hd (rev (dropWhile Q (rev xs))) = hd xs"
proof (induction xs rule: rev_induct)
  case Nil
  then show ?case by simp
next
  case (snoc x xs)
  show ?case
  proof (cases "Q x")
    case True
    with snoc show ?thesis by (cases xs) auto
  next
    case False
    then show ?thesis by simp
  qed
qed

lemma stripHyphens_hd:
  assumes ne: "stripHyphens s \<noteq> []"
  shows "\<not> isHyphen (hd (stripHyphens s))"
proof -
  let ?d = "dropWhile isHyphen s"
  have "?d = [] \<Longrightarrow> stripHyphens s = []"
    by (simp add: stripHyphens_def del: dropWhile_eq_Nil_conv)
  with ne have d: "?d \<noteq> []" by blast
  then have h: "\<not> isHyphen (hd ?d)" by (rule hd_dropWhile)
  from dropWhile_end_keeps_hd[of ?d isHyphen isHyphen] d h ne
  have "hd (stripHyphens s) = hd ?d"
    by (simp add: stripHyphens_def)
  with h show ?thesis by simp
qed

lemma slugChar_not_upper: "slugChar c \<Longrightarrow> \<not> isUpperAZ c"
  by (auto simp: slugChar_def isLowerAZ_def isDigit_def isHyphen_def isUpperAZ_def)

lemma lowerChar_not_upper:
  assumes "\<not> isUpperAZ c"
  shows "lowerChar c = c"
proof -
  have "map_of (zip ''ABCDEFGHIJKLMNOPQRSTUVWXYZ'' ''abcdefghijklmnopqrstuvwxyz'') c = None"
    by (rule iffD2[OF map_of_zip_is_None]) (use assms in \<open>simp_all add: isUpperAZ_def\<close>)
  then show ?thesis by (simp only: lowerChar_def option.case)
qed

lemma toLowerCase_fixed: "list_all slugChar s \<Longrightarrow> toLowerCase s = s"
  by (induction s) (simp_all add: toLowerCase_def lowerChar_not_upper slugChar_not_upper)

lemma replaceRuns_run:
  assumes "bad \<noteq> []" "list_all (\<lambda>c. \<not> slugChar c) bad" "ys = [] \<or> slugChar (hd ys)"
  shows "replaceRuns (bad @ ys) = CHR ''-'' # replaceRuns ys"
proof (cases bad)
  case Nil
  with assms show ?thesis by simp
next
  case (Cons b bs)
  have "dropWhile (\<lambda>d. \<not> slugChar d) (bs @ ys) = ys"
    using assms Cons by (cases ys) (auto simp: list_all_iff dropWhile_append)
  with assms Cons show ?thesis by simp
qed

lemma replaceRuns_split:
  assumes "xs = [] \<or> slugChar (last xs)"
  shows "replaceRuns (xs @ ys) = replaceRuns xs @ replaceRuns ys"
  using assms
proof (induction xs rule: replaceRuns.induct)
  case 1
  show ?case by simp
next
  case (2 c cs)
  show ?case
  proof (cases "slugChar c")
    case True
    with 2 show ?thesis by (cases cs) auto
  next
    case False
    let ?P = "\<lambda>d. \<not> slugChar d"
    from 2(3) False have cs: "cs \<noteq> []" "slugChar (last cs)"
      by (auto split: if_splits)
    then have ne: "dropWhile ?P cs \<noteq> []"
      by (metis dropWhile_eq_Nil_conv last_in_set)
    have l: "last (dropWhile ?P cs) = last cs"
      using ne by (metis last_appendR takeWhile_dropWhile_id)
    have "dropWhile ?P (cs @ ys) = dropWhile ?P cs @ ys"
      using ne by (metis dropWhile_append1 dropWhile_eq_Nil_conv)
    with False 2(2)[OF False] cs l show ?thesis by simp
  qed
qed

lemma slugify_class: "list_all slugChar (slugify s)"
  by (simp add: slugify_def stripHyphens_class replaceRuns_class)

lemmas slug_eval =
  slugFromFolder_def slugify_def toLowerCase_def lowerChar_def slugChar_def isLowerAZ_def
  isDigit_def isHyphen_def stripHyphens_def sys0_def posixBasename_def

text \<open>
  C8. Whatever the working directory and whatever \<open>basename\<close> returns for it, the slug
  of \<open>slugFromFolder\<close> consists of characters of \<open>[a-z0-9-]\<close> only, is its own
  lowercase form and holds no uppercase letter, and neither starts nor ends with a hyphen.
  In the first \<open>replace\<close> a maximal run \<open>bad\<close> of one or more characters outside the
  class, standing between \<open>xs\<close> and \<open>ys\<close>, becomes exactly one hyphen, while the
  characters of the class are copied. The two examples of the specification evaluate as
  stated: \<open>My App!\<close> gives \<open>my-app\<close> and \<open>***x---y***\<close> gives \<open>x---y\<close>. The class and
  the hyphen properties hold of the two replaces applied to any text \<open>t\<close>, so they do
  not depend on what \<open>toLowerCase\<close> does to characters outside ASCII.
\<close>

theorem slugFromFolder_slug:
  "list_all slugChar (slugFromFolder y wd)
   \<and> toLowerCase (slugFromFolder y wd) = slugFromFolder y wd
   \<and> \<not> list_ex isUpperAZ (slugFromFolder y wd)
   \<and> (slugFromFolder y wd \<noteq> [] \<longrightarrow>
        \<not> isHyphen (hd (slugFromFolder y wd)) \<and> \<not> isHyphen (last (slugFromFolder y wd)))
   \<and> (bad \<noteq> [] \<and> list_all (\<lambda>c. \<not> slugChar c) bad
        \<and> (xs = [] \<or> slugChar (last xs)) \<and> (ys = [] \<or> slugChar (hd ys)) \<longrightarrow>
        replaceRuns (xs @ bad @ ys) = replaceRuns xs @ ''-'' @ replaceRuns ys)
   \<and> (list_all slugChar xs \<longrightarrow> replaceRuns xs = xs)
   \<and> slugFromFolder sys0 (Some ''/path/to/My App!'') = ''my-app''
   \<and> slugFromFolder sys0 (Some ''***x---y***'') = ''x---y''
   \<and> list_all slugChar (stripHyphens (replaceRuns t))
   \<and> (stripHyphens (replaceRuns t) \<noteq> [] \<longrightarrow>
        \<not> isHyphen (hd (stripHyphens (replaceRuns t)))
        \<and> \<not> isHyphen (last (stripHyphens (replaceRuns t))))"
proof -
  let ?s = "slugFromFolder y wd"
  obtain n where s: "?s = slugify n"
    by (simp add: slugFromFolder_def Let_def)
  have c: "list_all slugChar ?s"
    unfolding s by (rule slugify_class)
  have l: "toLowerCase ?s = ?s"
    using c by (rule toLowerCase_fixed)
  have u: "\<not> list_ex isUpperAZ ?s"
    using c slugChar_not_upper by (auto simp: list_all_iff list_ex_iff)
  have h: "?s \<noteq> [] \<longrightarrow> \<not> isHyphen (hd ?s) \<and> \<not> isHyphen (last ?s)"
    unfolding s slugify_def using stripHyphens_hd stripHyphens_last by blast
  have r: "bad \<noteq> [] \<and> list_all (\<lambda>c. \<not> slugChar c) bad
        \<and> (xs = [] \<or> slugChar (last xs)) \<and> (ys = [] \<or> slugChar (hd ys)) \<longrightarrow>
        replaceRuns (xs @ bad @ ys) = replaceRuns xs @ ''-'' @ replaceRuns ys"
    by (simp add: replaceRuns_split replaceRuns_run)
  have i: "list_all slugChar xs \<longrightarrow> replaceRuns xs = xs"
    by (induction xs) simp_all
  have e1: "slugFromFolder sys0 (Some ''/path/to/My App!'') = ''my-app''"
    by (simp add: slug_eval)
  have e2: "slugFromFolder sys0 (Some ''***x---y***'') = ''x---y''"
    by (simp add: slug_eval)
  have g1: "list_all slugChar (stripHyphens (replaceRuns t))"
    by (simp add: stripHyphens_class replaceRuns_class)
  have g2: "stripHyphens (replaceRuns t) \<noteq> [] \<longrightarrow>
        \<not> isHyphen (hd (stripHyphens (replaceRuns t)))
        \<and> \<not> isHyphen (last (stripHyphens (replaceRuns t)))"
    using stripHyphens_hd stripHyphens_last by blast
  from c l u h r i e1 e2 g1 g2 show ?thesis by blast
qed

theorem slugFromFolder_slug_witness:
  "slugFromFolder sys0 None = ''my-app''
   \<and> list_all slugChar (slugFromFolder sys0 None)
   \<and> \<not> isHyphen (hd (slugFromFolder sys0 None))
   \<and> \<not> isHyphen (last (slugFromFolder sys0 None))
   \<and> replaceRuns (''a'' @ ''! _'' @ ''b-'') = ''a-b-''
   \<and> replaceRuns ''x---y'' = ''x---y''"
proof -
  have n: "slugFromFolder sys0 None = ''my-app''"
    by (simp add: slug_eval)
  have p: "''! _'' \<noteq> [] \<and> list_all (\<lambda>c. \<not> slugChar c) ''! _''
        \<and> (''a'' = [] \<or> slugChar (last ''a'')) \<and> (''b-'' = [] \<or> slugChar (hd ''b-''))"
    by (simp add: slugChar_def isLowerAZ_def isDigit_def isHyphen_def)
  have q: "list_all slugChar ''x---y''"
    by (simp add: slugChar_def isLowerAZ_def isDigit_def isHyphen_def)
  have a: "replaceRuns ''a'' = ''a''" "replaceRuns ''b-'' = ''b-''"
    by (simp_all add: slugChar_def isLowerAZ_def isDigit_def isHyphen_def)
  from slugFromFolder_slug[of sys0 None "''! _''" "''a''" "''b-''"] n p a
  have 1: "list_all slugChar (slugFromFolder sys0 None)
    \<and> \<not> isHyphen (hd (slugFromFolder sys0 None)) \<and> \<not> isHyphen (last (slugFromFolder sys0 None))
    \<and> replaceRuns (''a'' @ ''! _'' @ ''b-'') = ''a-b-''"
    by simp
  from slugFromFolder_slug[of sys0 None "[]" "''x---y''" "[]"] q
  have 2: "replaceRuns ''x---y'' = ''x---y''"
    by blast
  from n 1 2 show ?thesis by blast
qed

section \<open>Properties of the routes\<close>


lemma digitVal_digitChar: "d < 10 \<Longrightarrow> digitVal (digitChar d) = d"
proof -
  assume "d < 10"
  then have "d \<in> {0,1,2,3,4,5,6,7,8,9}" by auto
  then show ?thesis by (auto simp: digitVal_def digitChar_def)
qed

lemma isDigit_digitChar: "d < 10 \<Longrightarrow> isDigit (digitChar d)"
proof -
  assume "d < 10"
  then have "d \<in> {0,1,2,3,4,5,6,7,8,9}" by auto
  then show ?thesis by (auto simp: isDigit_def digitChar_def)
qed

lemma Number_snoc: "Number (ds @ [c]) = 10 * Number ds + digitVal c"
  by (simp add: Number_def)

lemma Number_showNat: "Number (showNat n) = n"
proof (induction n rule: showNat.induct)
  case (1 n)
  show ?case
  proof (cases "n < 10")
    case True
    then show ?thesis by (subst showNat.simps) (simp add: Number_def digitVal_digitChar)
  next
    case False
    with 1 show ?thesis
      by (subst showNat.simps) (simp add: Number_snoc digitVal_digitChar)
  qed
qed

lemma showNat_digits: "list_all isDigit (showNat n)"
proof (induction n rule: showNat.induct)
  case (1 n)
  then show ?case by (subst showNat.simps) (simp add: isDigit_digitChar)
qed

lemma showNat_nonempty: "showNat n \<noteq> []"
  by (subst showNat.simps) simp

lemma isDigit_not_space: "isDigit c \<Longrightarrow> \<not> isSpace c"
  by (auto simp: isDigit_def isSpace_def)

lemma trim_dialFor: "trim (dialFor p) = dialFor p"
proof -
  have l: "\<not> isSpace (last (showNat p))"
    using showNat_digits[of p] showNat_nonempty[of p]
    by (metis isDigit_not_space last_in_set list_all_iff)
  obtain ds d where sp: "showNat p = ds @ [d]"
    using showNat_nonempty[of p] by (metis rev_exhaust)
  with l have d: "\<not> isSpace d" by simp
  show ?thesis
    unfolding dialFor_def sp trim_def using d by (simp add: isSpace_def)
qed

lemma execPort_dialFor: "execPort (dialFor p) = Some (showNat p)"
  by (simp add: dialFor_def showNat_nonempty showNat_digits)

lemma dialFor_nonempty: "dialFor p \<noteq> []"
  by (simp add: dialFor_def)

lemma extract_new: "extractUpstreamPort (newRoute d p) = Some p"
  by (simp add: extractUpstreamPort_def newRoute_def trim_dialFor execPort_dialFor dialFor_nonempty Number_showNat)

lemma scan_none: "\<not> list_ex (\<lambda>h. handler h = ''reverse_proxy'') hs \<Longrightarrow> scanHandlers hs = None"
  by (induction hs) simp_all

lemma arraysEqual_iff: "arraysEqual a b \<longleftrightarrow> a = b"
  unfolding list_eq_iff_nth_eq arraysEqual_def by (auto simp: list_all_iff)


text \<open>
  C9. The route built for a domain \<open>d\<close> and a port \<open>p\<close> (one matcher with the host
  list \<open>[d]\<close>, one \<open>reverse_proxy\<close> handler with the single upstream dialing
  \<open>127.0.0.1:p\<close>, terminal true) gives back \<open>p\<close> under \<open>extractUpstreamPort\<close>, for
  every port \<open>p\<close>; and a route none of whose handlers is a \<open>reverse_proxy\<close> handler
  gives none. Ports are natural numbers, written and read in decimal, which is what the
  template literal and \<open>Number\<close> do for every integer a port can be.
\<close>

theorem extractUpstreamPort_roundtrip:
  "newRoute d p =
     \<lparr>match = Some [\<lparr>host = Some [d]\<rparr>],
      handle = Some [\<lparr>handler = ''reverse_proxy'',
                      upstreams = Some [\<lparr>dial = ''127.0.0.1:'' @ showNat p\<rparr>]\<rparr>],
      terminal = Some True\<rparr>
   \<and> extractUpstreamPort (newRoute d p) = Some p
   \<and> (\<not> list_ex (\<lambda>h. handler h = ''reverse_proxy'')
            (case handle r of Some hs \<Rightarrow> hs | None \<Rightarrow> [])
        \<longrightarrow> extractUpstreamPort r = None)"
proof -
  have a: "newRoute d p =
     \<lparr>match = Some [\<lparr>host = Some [d]\<rparr>],
      handle = Some [\<lparr>handler = ''reverse_proxy'',
                      upstreams = Some [\<lparr>dial = ''127.0.0.1:'' @ showNat p\<rparr>]\<rparr>],
      terminal = Some True\<rparr>"
    by (simp add: newRoute_def dialFor_def)
  have b: "extractUpstreamPort (newRoute d p) = Some p"
    by (rule extract_new)
  have c: "\<not> list_ex (\<lambda>h. handler h = ''reverse_proxy'')
            (case handle r of Some hs \<Rightarrow> hs | None \<Rightarrow> [])
        \<longrightarrow> extractUpstreamPort r = None"
    by (simp add: scan_none extractUpstreamPort_def)
  from a b c show ?thesis by blast
qed

theorem extractUpstreamPort_roundtrip_witness:
  "extractUpstreamPort (newRoute ''app.localhost'' 5173) = Some 5173
   \<and> dial (hd (the (upstreams (hd (the (handle (newRoute ''app.localhost'' 5173)))))))
       = ''127.0.0.1:5173''
   \<and> extractUpstreamPort
        \<lparr>match = Some [\<lparr>host = Some [''app.localhost'']\<rparr>],
         handle = Some [\<lparr>handler = ''file_server'', upstreams = None\<rparr>],
         terminal = None\<rparr> = None"
proof -
  let ?r = "\<lparr>match = Some [\<lparr>host = Some [''app.localhost'']\<rparr>],
         handle = Some [\<lparr>handler = ''file_server'', upstreams = None\<rparr>],
         terminal = None\<rparr>"
  have n: "showNat 5173 = ''5173''"
    by (simp add: showNat.simps digitChar_def)
  have h: "\<not> list_ex (\<lambda>h. handler h = ''reverse_proxy'')
            (case handle ?r of Some hs \<Rightarrow> hs | None \<Rightarrow> [])"
    by simp
  note t = extractUpstreamPort_roundtrip[of "''app.localhost''" 5173 ?r]
  from t have f1: "newRoute ''app.localhost'' 5173 =
     \<lparr>match = Some [\<lparr>host = Some [''app.localhost'']\<rparr>],
      handle = Some [\<lparr>handler = ''reverse_proxy'',
                      upstreams = Some [\<lparr>dial = ''127.0.0.1:'' @ showNat 5173\<rparr>]\<rparr>],
      terminal = Some True\<rparr>"
    by blast
  from t have f2: "extractUpstreamPort (newRoute ''app.localhost'' 5173) = Some 5173"
    by blast
  from t h have f3: "extractUpstreamPort ?r = None"
    by blast
  have g: "dial (hd (the (upstreams (hd (the (handle (newRoute ''app.localhost'' 5173)))))))
       = ''127.0.0.1:5173''"
    unfolding f1 using n by simp
  from f2 g f3 show ?thesis by blast
qed

section \<open>The domain\<close>


text \<open>
  Every other explicit domain is returned unchanged, whatever the name source, the
  top-level domain and the directory are. Without a domain, or with the empty one, the
  result is the slug of the chosen source, a dot, and the top-level domain (\<open>localhost\<close>
  when none is given).
\<close>

lemma computeDomain_explicit_wins:
  "(d \<noteq> [] \<longrightarrow> computeDomain y (options\<lparr>domainOptions.domain := Some d\<rparr>) = d)
   \<and> (domainOptions.domain options = None \<or> domainOptions.domain options = Some [] \<longrightarrow>
        computeDomain y options =
          (if domainOptions.nameSource options = Some Pkg then slugFromPkg y (cwd options)
           else slugFromFolder y (cwd options))
          @ ''.'' @ (case domainOptions.tld options of Some t \<Rightarrow> t | None \<Rightarrow> ''localhost''))"
  by (auto simp: computeDomain_def Let_def split: option.splits)

section \<open>The admin API client\<close>

lemma fetch_eq: "serve e rq (world s) = (r, w) \<Longrightarrow> fetch e rq s = (Return r, \<lparr>world = w, trace = trace s @ [Fetch rq]\<rparr>)"
  by (simp add: fetch_def)

lemma get_fail: "serve e (getRequest u) (world s) = (r, w) \<Longrightarrow> \<not> ok r \<Longrightarrow>
  get e u s = (Return None, \<lparr>world = w, trace = trace s @ [Fetch (getRequest u)]\<rparr>)"
  by (simp add: get_def andThen_def fetch_def getRequest_def ret_def)

lemma put_fail: "serve e (putRequest u b) (world s) = (r, w) \<Longrightarrow> \<not> ok r \<Longrightarrow>
  put e u b s = (Throw (HttpError (status r) (statusText r) u (content r)), \<lparr>world = w, trace = trace s @ [Fetch (putRequest u b)]\<rparr>)"
  by (simp add: put_def req_def andThen_def fetch_def putRequest_def throw_def)

lemma post_fail: "serve e (postRequest u b) (world s) = (r, w) \<Longrightarrow> \<not> ok r \<Longrightarrow>
  post e u b s = (Throw (HttpError (status r) (statusText r) u (content r)), \<lparr>world = w, trace = trace s @ [Fetch (postRequest u b)]\<rparr>)"
  by (simp add: post_def req_def andThen_def fetch_def postRequest_def throw_def)

lemma put_ok: "serve e (putRequest u b) (world s) = (r, w) \<Longrightarrow> ok r \<Longrightarrow>
  put e u b s = parseText (content r) \<lparr>world = w, trace = trace s @ [Fetch (putRequest u b)]\<rparr>"
  by (simp add: put_def req_def andThen_def fetch_def putRequest_def throw_def)
lemma post_ok: "serve e (postRequest u b) (world s) = (r, w) \<Longrightarrow> ok r \<Longrightarrow>
  post e u b s = parseText (content r) \<lparr>world = w, trace = trace s @ [Fetch (postRequest u b)]\<rparr>"
  by (simp add: post_def req_def andThen_def fetch_def postRequest_def throw_def)
lemma get_ok: "serve e (getRequest u) (world s) = (r, w) \<Longrightarrow> ok r \<Longrightarrow>
  get e u s = parseText (content r) \<lparr>world = w, trace = trace s @ [Fetch (getRequest u)]\<rparr>"
  by (simp add: get_def andThen_def fetch_def getRequest_def ret_def)

text \<open>
  C6, as stated, fails on one point: the error of a failed write does not hold the
  method. On the tree \<open>JNull\<close> a POST and a PUT on the same path are both refused, and
  the two calls throw the same error.
\<close>

theorem req_error_without_method:
  "fst (post caddyEnv (Url ''http://127.0.0.1:2019'' [''config'', ''apps'']) (JObj []) (start JNull))
     = Throw (HttpError 400 ''Bad Request'' (Url ''http://127.0.0.1:2019'' [''config'', ''apps''])
                (OtherText ''bad request''))
   \<and> fst (put caddyEnv (Url ''http://127.0.0.1:2019'' [''config'', ''apps'']) (JObj []) (start JNull))
     = Throw (HttpError 400 ''Bad Request'' (Url ''http://127.0.0.1:2019'' [''config'', ''apps''])
                (OtherText ''bad request''))"
  by (simp add: post_def put_def req_def andThen_def fetch_def throw_def caddyEnv_def caddy_def
      start_def postRequest_def putRequest_def badRequest_def ok_def)

text \<open>
  C6, amended. When the endpoint answers a read with a status outside 200 to 299, \<open>get\<close>
  returns undefined and does not throw. When it answers a \<open>post\<close> or a \<open>put\<close> with such a
  status, the call throws the error made of the status, the status text, the url and the
  text of the response (not the method). An empty text of a successful answer decodes to
  undefined, for \<open>get\<close>, \<open>post\<close> and \<open>put\<close> alike.
\<close>

theorem client_contract:
  "(serve e (getRequest u) (world s) = (r, w) \<and> \<not> ok r \<longrightarrow>
      get e u s = (Return None, \<lparr>world = w, trace = trace s @ [Fetch (getRequest u)]\<rparr>))
   \<and> (serve e (postRequest u b) (world s) = (r, w) \<and> \<not> ok r \<longrightarrow>
      post e u b s = (Throw (HttpError (status r) (statusText r) u (content r)),
                      \<lparr>world = w, trace = trace s @ [Fetch (postRequest u b)]\<rparr>))
   \<and> (serve e (putRequest u b) (world s) = (r, w) \<and> \<not> ok r \<longrightarrow>
      put e u b s = (Throw (HttpError (status r) (statusText r) u (content r)),
                     \<lparr>world = w, trace = trace s @ [Fetch (putRequest u b)]\<rparr>))
   \<and> (serve e (getRequest u) (world s) = (r, w) \<and> ok r \<and> content r = NoText \<longrightarrow>
      get e u s = (Return None, \<lparr>world = w, trace = trace s @ [Fetch (getRequest u)]\<rparr>))
   \<and> (serve e (postRequest u b) (world s) = (r, w) \<and> ok r \<and> content r = NoText \<longrightarrow>
      post e u b s = (Return None, \<lparr>world = w, trace = trace s @ [Fetch (postRequest u b)]\<rparr>))
   \<and> (serve e (putRequest u b) (world s) = (r, w) \<and> ok r \<and> content r = NoText \<longrightarrow>
      put e u b s = (Return None, \<lparr>world = w, trace = trace s @ [Fetch (putRequest u b)]\<rparr>))"
  by (simp add: get_fail post_fail put_fail get_ok post_ok put_ok parseText_def ret_def)

theorem client_contract_witness:
  "get caddyEnv (Url ''a'' [''config'', ''apps'']) (start JNull)
     = (Return None, \<lparr>world = JNull, trace = [Fetch (getRequest (Url ''a'' [''config'', ''apps'']))]\<rparr>)
   \<and> fst (post caddyEnv (Url ''a'' [''config'', ''apps'']) (JObj []) (start JNull))
     = Throw (HttpError 400 ''Bad Request'' (Url ''a'' [''config'', ''apps'']) (OtherText ''bad request''))
   \<and> fst (put caddyEnv (Url ''a'' [''config'', ''apps'']) (JObj []) (start JNull))
     = Throw (HttpError 400 ''Bad Request'' (Url ''a'' [''config'', ''apps'']) (OtherText ''bad request''))
   \<and> put caddyEnv (Url ''a'' [''config'', ''apps'']) (JObj []) (start (JObj []))
     = (Return None, \<lparr>world = JObj [(''apps'', JObj [])],
                      trace = [Fetch (putRequest (Url ''a'' [''config'', ''apps'']) (JObj []))]\<rparr>)
   \<and> post caddyEnv (Url ''a'' [''load'']) (JObj []) (start JNull)
     = (Return None, \<lparr>world = JObj [],
                      trace = [Fetch (postRequest (Url ''a'' [''load'']) (JObj []))]\<rparr>)"
proof -
  let ?u = "Url ''a'' [''config'', ''apps'']"
  let ?l = "Url ''a'' [''load'']"
  have g: "serve caddyEnv (getRequest ?u) (world (start JNull)) = (notFound, JNull) \<and> \<not> ok notFound"
    by (simp add: caddyEnv_def caddy_def getRequest_def start_def notFound_def ok_def)
  have p: "serve caddyEnv (postRequest ?u (JObj [])) (world (start JNull)) = (badRequest, JNull)
           \<and> \<not> ok badRequest"
    by (simp add: caddyEnv_def caddy_def postRequest_def start_def badRequest_def ok_def)
  have q: "serve caddyEnv (putRequest ?u (JObj [])) (world (start JNull)) = (badRequest, JNull)
           \<and> \<not> ok badRequest"
    by (simp add: caddyEnv_def caddy_def putRequest_def start_def badRequest_def ok_def)
  have q2: "serve caddyEnv (putRequest ?u (JObj [])) (world (start (JObj [])))
              = (okEmpty, JObj [(''apps'', JObj [])]) \<and> ok okEmpty \<and> content okEmpty = NoText"
    by (simp add: caddyEnv_def caddy_def putRequest_def start_def okEmpty_def ok_def)
  have p2: "serve caddyEnv (postRequest ?l (JObj [])) (world (start JNull))
              = (okEmpty, JObj []) \<and> ok okEmpty \<and> content okEmpty = NoText"
    by (simp add: caddyEnv_def caddy_def postRequest_def start_def okEmpty_def ok_def)
  have 1: "get caddyEnv ?u (start JNull)
     = (Return None, \<lparr>world = JNull, trace = [Fetch (getRequest ?u)]\<rparr>)"
    using client_contract[of caddyEnv ?u "start JNull" notFound JNull] g
    by (simp add: start_def)
  have 2: "fst (post caddyEnv ?u (JObj []) (start JNull))
     = Throw (HttpError 400 ''Bad Request'' ?u (OtherText ''bad request''))"
    using client_contract[of caddyEnv ?u "start JNull" badRequest JNull "JObj []"] p
    by (simp add: badRequest_def)
  have 3: "fst (put caddyEnv ?u (JObj []) (start JNull))
     = Throw (HttpError 400 ''Bad Request'' ?u (OtherText ''bad request''))"
    using client_contract[of caddyEnv ?u "start JNull" badRequest JNull "JObj []"] q
    by (simp add: badRequest_def)
  have 4: "put caddyEnv ?u (JObj []) (start (JObj []))
     = (Return None, \<lparr>world = JObj [(''apps'', JObj [])],
                      trace = [Fetch (putRequest ?u (JObj []))]\<rparr>)"
    using client_contract[of caddyEnv ?u "start (JObj [])" okEmpty "JObj [(''apps'', JObj [])]" "JObj []"] q2
    by (simp add: start_def)
  have 5: "post caddyEnv ?l (JObj []) (start JNull)
     = (Return None, \<lparr>world = JObj [], trace = [Fetch (postRequest ?l (JObj []))]\<rparr>)"
    using client_contract[of caddyEnv ?l "start JNull" okEmpty "JObj []" "JObj []"] p2
    by (simp add: start_def)
  from 1 2 3 4 5 show ?thesis by blast
qed


section \<open>Runs and traces\<close>

lemma map_filter_app: "List.map_filter f (a @ b) = List.map_filter f a @ List.map_filter f b"
  by (simp add: map_filter_def)

lemma writes_append: "writes (a @ b) = writes a @ writes b"
  by (simp add: writes_def map_filter_app)

lemma writes_simps:
  "writes [] = []"
  "writes (Fetch rq # t) = (if verb rq \<noteq> GET then rq # writes t else writes t)"
  "writes (Probe n # t) = writes t"
  "writes (ConsoleLog l # t) = writes t"
  "writes (ConsoleWarn l # t) = writes t"
  "writes (ConsoleError l # t) = writes t"
  "writes (ServerClose # t) = writes t"
  by (simp_all add: writes_def map_filter_simps)

lemma req_run:
  "req e u rq s =
     (let r = fst (serve e (rq\<lparr>target := u\<rparr>) (world s));
          s' = \<lparr>world = snd (serve e (rq\<lparr>target := u\<rparr>) (world s)),
                trace = trace s @ [Fetch (rq\<lparr>target := u\<rparr>)]\<rparr>
      in if \<not> ok r then (Throw (HttpError (status r) (statusText r) u (content r)), s')
         else parseText (content r) s')"
  by (simp add: req_def andThen_def fetch_def throw_def Let_def split: prod.splits)

lemma parseText_state: "snd (parseText t s) = s"
  by (cases t) (simp_all add: parseText_def ret_def throw_def)

lemma parseText_no_exit: "fst (parseText t s) \<noteq> Exit n"
  by (cases t) (simp_all add: parseText_def ret_def throw_def)

lemma put_state:
  "snd (put e u b s) =
     \<lparr>world = snd (serve e (putRequest u b) (world s)), trace = trace s @ [Fetch (putRequest u b)]\<rparr>"
  by (simp add: put_def req_run Let_def parseText_state putRequest_def)

lemma put_no_exit: "fst (put e u b s) \<noteq> Exit n"
  by (simp add: put_def req_run Let_def parseText_no_exit)

lemma replaceRouteAt_state:
  "snd (replaceRouteAt e opt i d p s) =
     \<lparr>world = snd (serve e (putRequest (configUrl opt (routesPath opt @ [showInt i])) (jsonOfRoute (newRoute d p))) (world s)),
      trace = trace s @ [Fetch (putRequest (configUrl opt (routesPath opt @ [showInt i])) (jsonOfRoute (newRoute d p)))]\<rparr>"
proof -
  let ?u = "configUrl opt (routesPath opt @ [showInt i])"
  let ?b = "jsonOfRoute (newRoute d p)"
  show ?thesis
    using put_state[of e ?u ?b s]
    by (cases "put e ?u ?b s"; cases "fst (put e ?u ?b s)") (auto simp: replaceRouteAt_def andThen_def ret_def)
qed

lemma replaceRouteAt_no_exit: "fst (replaceRouteAt e opt i d p s) \<noteq> Exit n"
  using put_no_exit[of e "configUrl opt (routesPath opt @ [showInt i])" "jsonOfRoute (newRoute d p)" s n]
  by (cases "put e (configUrl opt (routesPath opt @ [showInt i])) (jsonOfRoute (newRoute d p)) s"; cases "fst (put e (configUrl opt (routesPath opt @ [showInt i])) (jsonOfRoute (newRoute d p)) s)")
     (auto simp: replaceRouteAt_def andThen_def ret_def)

lemma print_run:
  "printWhereToBrowse opt d s = (Return (), s\<lparr>trace := trace s @ [ConsoleLog [''Domain'', browseUrl opt d, ''(via caddy)'']]\<rparr>)"
  by (simp add: printWhereToBrowse_def emit_def)

lemma checkHosts_returns: "fst (checkHostsForLocal e d s) = Return ()"
  by (simp add: checkHostsForLocal_def ret_def warn_def emit_def split: option.splits)

lemma checkHosts_world: "world (snd (checkHostsForLocal e d s)) = world s"
  by (simp add: checkHostsForLocal_def ret_def warn_def emit_def split: option.splits)

lemma checkHosts_writes: "writes (trace (snd (checkHostsForLocal e d s))) = writes (trace s)"
  by (simp add: checkHostsForLocal_def ret_def warn_def emit_def writes_append writes_simps
      split: option.splits)

lemma get_run:
  "get e u s =
     (let r = fst (serve e (getRequest u) (world s));
          s' = \<lparr>world = snd (serve e (getRequest u) (world s)),
                trace = trace s @ [Fetch (getRequest u)]\<rparr>
      in if \<not> ok r then (Return None, s') else parseText (content r) s')"
  by (simp add: get_def andThen_def fetch_def ret_def Let_def split: prod.splits)

lemma get_writes: "writes (trace (snd (get e u s))) = writes (trace s)"
  by (simp add: get_run Let_def parseText_state writes_append writes_simps getRequest_def)

lemma log_run: "\<exists>l. log opt msg s = (Return (), s\<lparr>trace := trace s @ l\<rparr>) \<and> writes l = []"
  by (cases "verbose opt") (auto simp: log_def emit_def ret_def writes_simps intro: exI[of _ "[]"])

lemma log_writes: "writes (trace (snd (log opt msg s))) = writes (trace s)"
  by (simp add: log_def emit_def ret_def writes_append writes_simps)

lemma log_world: "world (snd (log opt msg s)) = world s"
  by (simp add: log_def emit_def ret_def)

lemma log_returns: "fst (log opt msg s) = Return ()"
  by (simp add: log_def emit_def ret_def)

lemma writes_tlsReads: "writes (tlsReads opt) = []"
  by (simp add: tlsReads_def writes_simps getRequest_def)

lemma lookup_root: "lookup [] w = Some w"
  by simp

lemma ok_okJson: "ok (okJson v)"
  by (simp add: ok_def okJson_def)

lemma ok_notFound: "\<not> ok notFound"
  by (simp add: ok_def notFound_def)

lemmas io_defs = andThen_def ret_def throw_def emit_def fetch_def get_def put_def post_def req_def
  probeGet_def parseText_def log_def

lemmas scene_defs = envLive_def caddyEnv_def caddy_def optApp_def opt0_def treeWith_def
  configUrl_def serverBase_def policiesPath_def listenUrl_def autoUrl_def routesPath_def
  getRequest_def putRequest_def postRequest_def okJson_def okEmpty_def notFound_def badRequest_def
  ok_def start_def devServer_def


section \<open>The configuration tree\<close>

lemma map_of_setField: "map_of (setField k v kvs) k' = (if k' = k then Some v else map_of kvs k')"
  by (induction kvs) auto

lemma segIndex_showNat: "segIndex (showNat i) = Some i"
  using showNat_digits[of i] showNat_nonempty[of i]
  by (simp add: segIndex_def Number_showNat)

lemma segIndex_iff: "segIndex k = Some i \<longleftrightarrow> k = showNat i"
  by (auto simp: segIndex_def Number_showNat showNat_digits showNat_nonempty)

lemma child_setChild: "setChild k x v = Some v' \<Longrightarrow> child k v' = Some x"
  by (cases v) (auto simp: map_of_setField nth_append split: option.splits if_splits)

lemma setChild_exists: "child k v = Some c \<Longrightarrow> \<exists>v'. setChild k x v = Some v'"
  by (cases v) (auto split: option.splits if_splits)

lemma lookup_append: "lookup (p @ q) w = (case lookup p w of Some c \<Rightarrow> lookup q c | None \<Rightarrow> None)"
  by (induction p arbitrary: w) (auto split: option.splits)

lemma lookup_prefix_exists: "lookup (p @ q) w = Some v \<Longrightarrow> \<exists>c. lookup p w = Some c"
  by (simp add: lookup_append split: option.splits)

lemma lookup_store_same: "store p x w = Some w' \<Longrightarrow> lookup p w' = Some x"
proof (induction p x w arbitrary: w' rule: store.induct)
  case (1 x v)
  then show ?case by simp
next
  case (2 k x v)
  then show ?case by (simp add: child_setChild)
next
  case (3 k k' p x v)
  from "3.prems" obtain c c' where c: "child k v = Some c" and s: "store (k' # p) x c = Some c'"
    and w: "setChild k c' v = Some w'"
    by (auto split: option.splits)
  from "3.IH"[OF c s] child_setChild[OF w] show ?case by simp
qed

lemma store_below:
  "lookup p w = Some c \<Longrightarrow> setChild k x c = Some c' \<Longrightarrow>
     \<exists>w'. store (p @ [k]) x w = Some w' \<and> lookup p w' = Some c'"
proof (induction p arbitrary: w)
  case Nil
  then show ?case by simp
next
  case (Cons a p)
  from Cons.prems(1) obtain c0 where c0: "child a w = Some c0" and l: "lookup p c0 = Some c"
    by (auto split: option.splits)
  from Cons.IH[OF l Cons.prems(2)] obtain c0' where
    s: "store (p @ [k]) x c0 = Some c0'" and l': "lookup p c0' = Some c'" by blast
  from setChild_exists[OF c0] obtain w' where w': "setChild a c0' w = Some w'" by blast
  have "store ((a # p) @ [k]) x w = Some w'"
    using c0 s w' by (cases "p @ [k]") auto
  moreover have "lookup (a # p) w' = Some c'"
    using child_setChild[OF w'] l' by simp
  ultimately show ?case by blast
qed

lemma lookup_store_exists: "lookup p w = Some v \<Longrightarrow> \<exists>w'. store p x w = Some w'"
proof (cases p rule: rev_cases)
  case Nil
  then show ?thesis by simp
next
  case (snoc q k)
  assume l: "lookup p w = Some v"
  with snoc obtain c where c: "lookup q w = Some c" and ch: "child k c = Some v"
    by (auto simp: lookup_append split: option.splits)
  from setChild_exists[OF ch] obtain c' where "setChild k x c = Some c'" by blast
  from store_below[OF c this] snoc show ?thesis by blast
qed

lemma store_element:
  assumes "lookup p w = Some (JArr xs)" and "i < length xs"
  shows "\<exists>w'. store (p @ [showNat i]) x w = Some w' \<and> lookup p w' = Some (JArr (xs[i := x]))"
  using store_below[OF assms(1), of "showNat i" x "JArr (xs[i := x])"] assms(2)
  by (simp add: segIndex_showNat)


subsection \<open>Requests on the tree\<close>

lemma get_caddy:
  assumes "serve e = caddy"
  shows "get e (configUrl opt p) s =
     (Return (lookup p (world s)), s\<lparr>trace := trace s @ [Fetch (getRequest (configUrl opt p))]\<rparr>)"
  using assms
  by (cases "lookup p (world s)")
     (simp_all add: get_def andThen_def fetch_def ret_def caddy_def configUrl_def getRequest_def
        okJson_def notFound_def ok_def parseText_def)

lemma probeGet_caddy:
  assumes "serve e = caddy"
  shows "probeGet e (configUrl opt p) s =
     (Return (case lookup p (world s) of Some v \<Rightarrow> okJson v | None \<Rightarrow> notFound),
      s\<lparr>trace := trace s @ [Fetch (getRequest (configUrl opt p))]\<rparr>)"
  using assms
  by (cases "lookup p (world s)")
     (simp_all add: probeGet_def fetch_def caddy_def configUrl_def getRequest_def)

lemma ok_probe: "ok (case v of Some x \<Rightarrow> okJson x | None \<Rightarrow> notFound) = (v \<noteq> None)"
  by (cases v) (simp_all add: ok_def okJson_def notFound_def)

lemma put_caddy:
  assumes "serve e = caddy"
  shows "put e (configUrl opt p) x s =
     (case store p x (world s) of
        Some w' \<Rightarrow> (Return None, \<lparr>world = w', trace = trace s @ [Fetch (putRequest (configUrl opt p) x)]\<rparr>)
      | None \<Rightarrow> (Throw (HttpError 400 ''Bad Request'' (configUrl opt p) (OtherText ''bad request'')),
                 s\<lparr>trace := trace s @ [Fetch (putRequest (configUrl opt p) x)]\<rparr>))"
  using assms
  by (cases "store p x (world s)")
     (simp_all add: put_def req_def andThen_def fetch_def ret_def throw_def caddy_def configUrl_def
        putRequest_def okEmpty_def badRequest_def ok_def parseText_def)

lemma post_caddy:
  assumes "serve e = caddy"
  shows "post e (configUrl opt p) x s =
     (case lookup p (world s) of
        Some (JArr xs) \<Rightarrow>
          (case store p (JArr (xs @ [x])) (world s) of
             Some w' \<Rightarrow> (Return None, \<lparr>world = w', trace = trace s @ [Fetch (postRequest (configUrl opt p) x)]\<rparr>)
           | None \<Rightarrow> (Throw (HttpError 400 ''Bad Request'' (configUrl opt p) (OtherText ''bad request'')),
                 s\<lparr>trace := trace s @ [Fetch (postRequest (configUrl opt p) x)]\<rparr>))
      | _ \<Rightarrow> (Throw (HttpError 400 ''Bad Request'' (configUrl opt p) (OtherText ''bad request'')),
                 s\<lparr>trace := trace s @ [Fetch (postRequest (configUrl opt p) x)]\<rparr>))"
  using assms
  by (simp add: post_def req_def andThen_def fetch_def ret_def throw_def caddy_def configUrl_def
        postRequest_def okEmpty_def badRequest_def ok_def parseText_def
      split: option.splits json.splits)

lemma post_load_caddy:
  assumes "serve e = caddy"
  shows "post e (Url (adminUrl opt) [''load'']) x s =
     (Return None, \<lparr>world = x, trace = trace s @ [Fetch (postRequest (Url (adminUrl opt) [''load'']) x)]\<rparr>)"
  using assms
  by (simp add: post_def req_def andThen_def fetch_def ret_def throw_def caddy_def
        postRequest_def okEmpty_def ok_def parseText_def)

lemma caddyEnv_serve: "serve caddyEnv = caddy"
  by (simp add: caddyEnv_def)

section \<open>The listen addresses\<close>

lemma set_setFrom: "set (setFrom acc xs) = set acc \<union> set xs"
  by (induction xs arbitrary: acc) auto

lemma distinct_setFrom: "distinct acc \<Longrightarrow> distinct (setFrom acc xs)"
  by (induction xs arbitrary: acc) auto

lemma set_nextListen: "set (nextListen cur want) = set cur \<union> set want"
  by (simp add: nextListen_def newSet_def set_setFrom)

lemma distinct_nextListen: "distinct (nextListen cur want)"
  by (simp add: nextListen_def newSet_def distinct_setFrom)

lemma setFrom_map:
  "inj f \<Longrightarrow> setFrom (map f acc) (map f xs) = map f (setFrom acc xs)"
proof (induction xs arbitrary: acc)
  case Nil
  show ?case by simp
next
  case (Cons x xs)
  have m: "(f x \<in> f ` set acc) = (x \<in> set acc)"
    using Cons.prems by (auto dest: injD)
  from Cons.IH[OF Cons.prems, of acc] Cons.IH[OF Cons.prems, of "acc @ [x]"] m
  show ?case by simp
qed

lemma newSet_map: "inj f \<Longrightarrow> newSet (map f xs) = map f (newSet xs)"
  using setFrom_map[of f "[]" xs] by (simp add: newSet_def)

lemma inj_strCell: "inj (\<lambda>a. Value (JStr a))"
  by (rule injI) simp

lemma cellsFrom_strings: "cellsFrom i (map JStr xs) = map (\<lambda>a. Value (JStr a)) xs"
  by (induction xs arbitrary: i) (simp_all add: primitive_def)

lemma spread_strings: "spread (Some (JArr (map JStr xs))) = Some (map (\<lambda>a. Value (JStr a)) xs)"
  by (simp add: spread_def cellsOf_def cellsFrom_strings)

lemma next_strings:
  "newSet (map (\<lambda>a. Value (JStr a)) cur @ map (\<lambda>a. Value (JStr a)) (newSet want))
     = map (\<lambda>a. Value (JStr a)) (nextListen cur want)"
  using newSet_map[OF inj_strCell, of "cur @ newSet want"] by (simp add: nextListen_def)

lemma joinAll_strings: "joinAll '', '' (map Some xs) = Some (joinComma xs)"
  by (induction xs rule: joinComma.induct) simp_all

lemma jsonOf_Value: "jsonOf (Value v) = v"
  by (simp add: jsonOf_def)

lemma andThen_ret: "andThen (ret a) f = f a"
  by (rule ext) (simp add: andThen_def ret_def)

lemma joinCells_strings: "joinCells (map (\<lambda>a. Value (JStr a)) xs) = ret (joinComma xs)"
proof -
  have "map (\<lambda>c. joinText (jsonOf c)) (map (\<lambda>a. Value (JStr a)) xs) = map Some xs"
    by (induction xs) (simp_all add: jsonOf_Value)
  then show ?thesis
    unfolding joinCells_def by (simp only: joinAll_strings option.case)
qed

lemma jsonOf_strings: "map jsonOf (map (\<lambda>a. Value (JStr a)) xs) = map JStr xs"
  by (induction xs) (simp_all add: jsonOf_Value)

lemma map_strCell_eq: "(map (\<lambda>a. Value (JStr a)) xs = map (\<lambda>a. Value (JStr a)) ys) = (xs = ys)"
  using inj_map_eq_map[OF inj_strCell] by blast

text \<open>The listen block when the value read is a list of strings, or is not there.\<close>

lemma syncListen_run:
  assumes "spread v = Some (map (\<lambda>a. Value (JStr a)) current)"
    and "get e (listenUrl opt) s = (Return v, s1)"
  shows "syncListen e opt s =
     (if nextListen current (listen opt) = current then (Return (), s1)
      else andThen (put e (listenUrl opt) (JArr (map JStr (nextListen current (listen opt))))) (\<lambda>_.
             log opt (''Updated '' @ quoted (serverId opt) @ '' listen ''
                    @ [CHR 0xE2, CHR 0x86, CHR 0x92] @ '' '' @ joinComma (nextListen current (listen opt)))) s1)"
proof -
  let ?n = "nextListen current (listen opt)"
  have 1: "syncListen e opt s =
     (let next = map (\<lambda>a. Value (JStr a)) ?n in
       if \<not> arraysEqual (map (\<lambda>a. Value (JStr a)) current) next then
         andThen (put e (listenUrl opt) (JArr (map jsonOf next))) (\<lambda>_.
         andThen (joinCells next) (\<lambda>txt.
           log opt (''Updated '' @ quoted (serverId opt) @ '' listen ''
                    @ [CHR 0xE2, CHR 0x86, CHR 0x92] @ '' '' @ txt)))
       else ret ()) s1"
    using assms
    by (simp add: syncListen_def andThen_def spreadCurrent_def ret_def Let_def next_strings)
  show ?thesis
    unfolding 1 Let_def arraysEqual_iff map_strCell_eq jsonOf_strings joinCells_strings andThen_ret
    by (simp add: ret_def)
qed

lemma get_value:
  assumes "serve e (getRequest u) (world s) = (r, w)"
  shows "get e u s =
     (if \<not> ok r then (Return None, \<lparr>world = w, trace = trace s @ [Fetch (getRequest u)]\<rparr>)
      else parseText (content r) \<lparr>world = w, trace = trace s @ [Fetch (getRequest u)]\<rparr>)"
  using assms by (simp add: get_run Let_def)


lemma andThen_log_writes:
  "writes (trace (snd (andThen m (\<lambda>x. log opt (f x)) s))) = writes (trace (snd (m s)))"
  by (cases "m s"; cases "fst (m s)") (auto simp: andThen_def log_writes)

text \<open>
  C5. For any admin endpoint: when the configuration is not null and the GET on the
  server path succeeds, the bootstrap continues with the listen block. Let the endpoint
  answer the GET on the listen path of that block with the list of strings \<open>current\<close>
  (or with an error status, an empty text or null, and let \<open>current\<close> be empty). Then the
  list \<open>next\<close> that the block computes has exactly the addresses of \<open>current\<close> and of the
  wanted list, each once; the block writes \<open>next\<close> by one PUT on the listen path when
  \<open>next\<close> differs from \<open>current\<close>, and makes no write when they are equal.
\<close>

theorem syncListen_union:
  assumes a: "serve e (getRequest (listenUrl opt)) (world s) = (r, w)"
    and b: "(ok r \<and> content r = JsonText (JArr (map JStr current)))
            \<or> (current = [] \<and> (content r = NoText \<or> content r = JsonText JNull \<or> \<not> ok r))"
  shows "set (nextListen current (listen opt)) = set current \<union> set (listen opt)
     \<and> distinct (nextListen current (listen opt))
     \<and> writes (trace (snd (syncListen e opt s))) =
         writes (trace s) @
         (if nextListen current (listen opt) = current then []
          else [putRequest (listenUrl opt) (JArr (map JStr (nextListen current (listen opt))))])
     \<and> (get e (configUrl opt []) si = (Return root, sa) \<and> \<not> nullish root
          \<and> probeGet e (configUrl opt (serverBase opt)) sa = (Return h, s) \<and> ok h \<longrightarrow>
        ensureCaddyServerExists e opt d si =
          andThen (andThen (syncListen e opt) (\<lambda>_. enableAutoHttps e opt))
            (\<lambda>_. ensureTlsPolicy e opt d) s)"
proof -
  let ?n = "nextListen current (listen opt)"
  let ?rq = "putRequest (listenUrl opt) (JArr (map JStr ?n))"
  let ?s1 = "\<lparr>world = w, trace = trace s @ [Fetch (getRequest (listenUrl opt))]\<rparr>"
  from b consider
      (arr) "ok r" "content r = JsonText (JArr (map JStr current))"
    | (err) "current = []" "\<not> ok r"
    | (empty) "current = []" "ok r" "content r = NoText"
    | (null) "current = []" "ok r" "content r = JsonText JNull"
    by blast
  then have "\<exists>v. get e (listenUrl opt) s = (Return v, ?s1)
       \<and> spread v = Some (map (\<lambda>a. Value (JStr a)) current)"
  proof cases
    case arr
    then have "get e (listenUrl opt) s = (Return (Some (JArr (map JStr current))), ?s1)"
      by (simp add: get_value[OF a] parseText_def ret_def)
    with spread_strings[of current] show ?thesis by blast
  next
    case err
    then have "get e (listenUrl opt) s = (Return None, ?s1)"
      by (simp add: get_value[OF a])
    with err(1) show ?thesis by (simp add: spread_def)
  next
    case empty
    then have "get e (listenUrl opt) s = (Return None, ?s1)"
      by (simp add: get_value[OF a] parseText_def ret_def)
    with empty(1) show ?thesis by (simp add: spread_def)
  next
    case null
    then have "get e (listenUrl opt) s = (Return (Some JNull), ?s1)"
      by (simp add: get_value[OF a] parseText_def ret_def)
    with null(1) show ?thesis by (simp add: spread_def)
  qed
  then obtain v where g: "get e (listenUrl opt) s = (Return v, ?s1)"
    and sp: "spread v = Some (map (\<lambda>a. Value (JStr a)) current)"
    by blast
  note run = syncListen_run[OF sp g]
  have w1: "writes (trace ?s1) = writes (trace s)"
    by (simp add: writes_append writes_simps getRequest_def)
  have m: "verb ?rq \<noteq> GET" by (simp add: putRequest_def)
  have wr: "writes (trace (snd (syncListen e opt s))) =
         writes (trace s) @ (if ?n = current then [] else [?rq])"
  proof (cases "?n = current")
    case True
    with run w1 show ?thesis by simp
  next
    case False
    have "writes (trace (snd (syncListen e opt s)))
        = writes (trace (snd (put e (listenUrl opt) (JArr (map JStr ?n)) ?s1)))"
      using False run by (simp add: andThen_log_writes)
    also have "\<dots> = writes (trace s) @ [?rq]"
      using m by (simp add: put_state writes_append writes_simps getRequest_def)
    finally show ?thesis using False by simp
  qed
  have ctx: "get e (configUrl opt []) si = (Return root, sa) \<and> \<not> nullish root
          \<and> probeGet e (configUrl opt (serverBase opt)) sa = (Return h, s) \<and> ok h \<longrightarrow>
        ensureCaddyServerExists e opt d si =
          andThen (andThen (syncListen e opt) (\<lambda>_. enableAutoHttps e opt))
            (\<lambda>_. ensureTlsPolicy e opt d) s"
    by (simp add: ensureCaddyServerExists_def updateServer_def andThen_def)
  from wr ctx show ?thesis
    by (simp add: set_nextListen distinct_nextListen)
qed

theorem syncListen_union_witness:
  "writes (trace (snd (syncListen caddyEnv optMore
       \<lparr>world = treeWith [],
        trace = [Fetch (getRequest (configUrl optMore [])),
                 Fetch (getRequest (configUrl optMore (serverBase optMore)))]\<rparr>)))
     = [putRequest (listenUrl optMore) (JArr [JStr '':443'', JStr '':80'', JStr '':8443''])]
   \<and> set (nextListen ['':443'', '':80''] ['':443'', '':8443'']) = {'':443'', '':80'', '':8443''}
   \<and> ensureCaddyServerExists caddyEnv optMore ''app.localhost'' (start (treeWith []))
     = andThen (andThen (syncListen caddyEnv optMore) (\<lambda>_. enableAutoHttps caddyEnv optMore))
         (\<lambda>_. ensureTlsPolicy caddyEnv optMore ''app.localhost'')
         \<lparr>world = treeWith [],
          trace = [Fetch (getRequest (configUrl optMore [])),
                   Fetch (getRequest (configUrl optMore (serverBase optMore)))]\<rparr>"
proof -
  let ?s0 = "start (treeWith [])"
  let ?sa = "\<lparr>world = treeWith [], trace = [Fetch (getRequest (configUrl optMore []))]\<rparr>"
  let ?sb = "\<lparr>world = treeWith [],
          trace = [Fetch (getRequest (configUrl optMore [])),
                   Fetch (getRequest (configUrl optMore (serverBase optMore)))]\<rparr>"
  let ?srv = "JObj [(''listen'', JArr [JStr '':443'', JStr '':80'']), (''routes'', JArr [])]"
  let ?r = "okJson (JArr (map JStr ['':443'', '':80'']))"
  have sv: "serve caddyEnv (getRequest (listenUrl optMore)) (world ?sb) = (?r, treeWith [])"
    by (simp add: caddyEnv_def caddy_def listenUrl_def configUrl_def serverBase_def getRequest_def
        treeWith_def optMore_def optApp_def opt0_def)
  have hy: "(ok ?r \<and> content ?r = JsonText (JArr (map JStr ['':443'', '':80''])))
            \<or> (['':443'', '':80''] = [] \<and> (content ?r = NoText \<or> content ?r = JsonText JNull \<or> \<not> ok ?r))"
    by (simp add: ok_def okJson_def)
  have l: "listen optMore = ['':443'', '':8443'']"
    by (simp add: optMore_def)
  have n: "nextListen ['':443'', '':80''] ['':443'', '':8443''] = ['':443'', '':80'', '':8443'']"
    by (simp add: nextListen_def newSet_def)
  note t = syncListen_union[OF sv hy, where si = ?s0 and root = "Some (treeWith [])"
      and sa = ?sa and h = "okJson ?srv" and d = "''app.localhost''"]
  from t[THEN conjunct1] l
  have 1: "set (nextListen ['':443'', '':80''] ['':443'', '':8443'']) = {'':443'', '':80'', '':8443''}"
    by auto
  from t[THEN conjunct2, THEN conjunct2, THEN conjunct1] l n
  have 2: "writes (trace (snd (syncListen caddyEnv optMore ?sb)))
     = [putRequest (listenUrl optMore) (JArr [JStr '':443'', JStr '':80'', JStr '':8443''])]"
    by (simp add: writes_simps getRequest_def)
  have g0: "get caddyEnv (configUrl optMore []) ?s0 = (Return (Some (treeWith [])), ?sa)"
    by (simp add: get_caddy[OF caddyEnv_serve] start_def)
  have nn: "\<not> nullish (Some (treeWith []))"
    by (simp add: nullish_def treeWith_def)
  have p0: "probeGet caddyEnv (configUrl optMore (serverBase optMore)) ?sa = (Return (okJson ?srv), ?sb)"
    by (simp add: probeGet_caddy[OF caddyEnv_serve] serverBase_def treeWith_def optMore_def
        optApp_def opt0_def)
  from t[THEN conjunct2, THEN conjunct2, THEN conjunct2] g0 nn p0 ok_okJson
  have 3: "ensureCaddyServerExists caddyEnv optMore ''app.localhost'' ?s0
     = andThen (andThen (syncListen caddyEnv optMore) (\<lambda>_. enableAutoHttps caddyEnv optMore))
         (\<lambda>_. ensureTlsPolicy caddyEnv optMore ''app.localhost'') ?sb"
    by blast
  from 1 2 3 show ?thesis by blast
qed


section \<open>The TLS policy\<close>

lemma findIndexFrom_ge: "0 \<le> i \<Longrightarrow> findIndexFrom i P xs = -1 \<or> i \<le> findIndexFrom i P xs"
proof (induction xs arbitrary: i)
  case Nil
  then show ?case by simp
next
  case (Cons x xs)
  from Cons.IH[of "i + 1"] Cons.prems show ?case by auto
qed

lemma findIndexFrom_none: "0 \<le> i \<Longrightarrow> (findIndexFrom i P xs = -1) = (\<not> list_ex P xs)"
proof (induction xs arbitrary: i)
  case Nil
  then show ?case by simp
next
  case (Cons x xs)
  from Cons.IH[of "i + 1"] Cons.prems show ?case by auto
qed

lemma findIndex_none: "(findIndex P xs = -1) = (\<not> list_ex P xs)"
  by (simp add: findIndex_def findIndexFrom_none)

lemma policyMatches_internal: "policyMatches d (internalPolicy d)"
  by (simp add: policyMatches_def internalPolicy_def)

lemma policies_parents:
  assumes "lookup policiesPath w = Some v"
  shows "lookup [''apps''] w \<noteq> None \<and> lookup [''apps'', ''tls''] w \<noteq> None
     \<and> lookup [''apps'', ''tls'', ''automation''] w \<noteq> None"
proof -
  have 1: "lookup ([''apps''] @ [''tls'', ''automation'', ''policies'']) w = Some v"
    and 2: "lookup ([''apps'', ''tls''] @ [''automation'', ''policies'']) w = Some v"
    and 3: "lookup ([''apps'', ''tls'', ''automation''] @ [''policies'']) w = Some v"
    using assms by (simp_all add: policiesPath_def)
  from lookup_prefix_exists[OF 1] lookup_prefix_exists[OF 2] lookup_prefix_exists[OF 3]
  show ?thesis by auto
qed

lemma ensureTlsPolicy_run:
  assumes cd: "serve e = caddy" and l: "lookup policiesPath w = Some (JArr ps)"
  shows "ensureTlsPolicy e opt d \<lparr>world = w, trace = t\<rparr> =
     (if list_ex (policyMatches d) ps then
        log opt (''TLS automation policy already present for '' @ d)
          \<lparr>world = w, trace = t @ tlsReads opt\<rparr>
      else
        log opt (''Added TLS automation policy (internal) for '' @ d)
          \<lparr>world = the (store policiesPath (JArr (ps @ [internalPolicy d])) w),
           trace = t @ tlsReads opt @ [Fetch (postRequest (configUrl opt policiesPath) (internalPolicy d))]\<rparr>)"
proof -
  from policies_parents[OF l] obtain a b c where
    p: "lookup [''apps''] w = Some a" "lookup [''apps'', ''tls''] w = Some b"
       "lookup [''apps'', ''tls'', ''automation''] w = Some c"
    by auto
  from lookup_store_exists[OF l] obtain w' where
    s: "store policiesPath (JArr (ps @ [internalPolicy d])) w = Some w'" by blast
  have pre: "ensurePath e (configUrl opt [''apps'']) (JObj []) \<lparr>world = w, trace = t\<rparr>
      = (Return (), \<lparr>world = w, trace = t @ [Fetch (getRequest (configUrl opt [''apps'']))]\<rparr>)"
    using p(1) by (simp add: ensurePath_def andThen_def probeGet_caddy[OF cd] ok_okJson ret_def
        del: lookup.simps)
  show ?thesis
    unfolding ensureTlsPolicy_def
    using p l s
    by (simp add: andThen_def pre probeGet_caddy[OF cd] get_caddy[OF cd] post_caddy[OF cd] ok_probe
        ok_okJson ret_def castPolicies_def policiesOf_def findIndex_none tlsReads_def
        del: lookup.simps)
qed

text \<open>
  C4, amended. On a tree whose policies path holds the list \<open>ps\<close>, \<open>ensureTlsPolicy\<close>
  returns; it appends the entry with the subjects \<open>[d]\<close> and the internal issuer exactly
  when no entry of \<open>ps\<close> has the domain among its subjects and an internal issuer among
  its issuers, by one POST on the policies path, and otherwise makes no write and leaves
  the tree as it is. The entries of \<open>ps\<close> stay, unchanged and in order. Afterwards the
  number of entries that name the domain with the internal issuer is the number before,
  or one when there was none: at least one, and exactly one when there was at most one.
\<close>

theorem ensureTlsPolicy_policy:
  assumes "serve e = caddy" and "lookup policiesPath w = Some (JArr ps)"
  shows "fst (ensureTlsPolicy e opt d \<lparr>world = w, trace = t\<rparr>) = Return ()
     \<and> lookup policiesPath (world (snd (ensureTlsPolicy e opt d \<lparr>world = w, trace = t\<rparr>))) =
         Some (JArr (if list_ex (policyMatches d) ps then ps
                     else ps @ [JObj [(''subjects'', JArr [JStr d]),
                                      (''issuers'', JArr [JObj [(''module'', JStr ''internal'')]])]]))
     \<and> world (snd (ensureTlsPolicy e opt d \<lparr>world = w, trace = t\<rparr>)) =
         (if list_ex (policyMatches d) ps then w
          else the (store policiesPath (JArr (ps @ [internalPolicy d])) w))
     \<and> writes (trace (snd (ensureTlsPolicy e opt d \<lparr>world = w, trace = t\<rparr>))) =
         writes t @ (if list_ex (policyMatches d) ps then []
                     else [postRequest (configUrl opt policiesPath) (internalPolicy d)])
     \<and> length (filter (policyMatches d)
          (if list_ex (policyMatches d) ps then ps else ps @ [internalPolicy d])) =
         max 1 (length (filter (policyMatches d) ps))"
proof -
  note r = ensureTlsPolicy_run[OF assms, of opt d t]
  from lookup_store_exists[OF assms(2)] obtain w' where
    s: "store policiesPath (JArr (ps @ [internalPolicy d])) w = Some w'" by blast
  have l: "lookup policiesPath w' = Some (JArr (ps @ [internalPolicy d]))"
    by (rule lookup_store_same[OF s])
  have m: "verb (postRequest (configUrl opt policiesPath) (internalPolicy d)) \<noteq> GET"
    by (simp add: postRequest_def)
  have c: "length (filter (policyMatches d)
          (if list_ex (policyMatches d) ps then ps else ps @ [internalPolicy d])) =
         max 1 (length (filter (policyMatches d) ps))"
  proof (cases "list_ex (policyMatches d) ps")
    case True
    then have "filter (policyMatches d) ps \<noteq> []"
      by (auto simp: list_ex_iff filter_empty_conv)
    then have "1 \<le> length (filter (policyMatches d) ps)"
      by (cases "filter (policyMatches d) ps") auto
    with True show ?thesis by simp
  next
    case False
    then have "filter (policyMatches d) ps = []"
      by (auto simp: list_ex_iff filter_empty_conv)
    with False show ?thesis by (simp add: policyMatches_internal)
  qed
  show ?thesis
  proof (cases "list_ex (policyMatches d) ps")
    case True
    with r assms(2) c show ?thesis
      by (simp add: log_returns log_world log_writes writes_append writes_tlsReads del: lookup.simps)
  next
    case False
    with r s l m c show ?thesis
      by (simp add: log_returns log_world log_writes writes_append writes_tlsReads writes_simps
          internalPolicy_def del: lookup.simps)
  qed
qed

lemma lookup_treePolicies: "lookup policiesPath (treePolicies ps) = Some (JArr ps)"
  by (simp add: policiesPath_def treePolicies_def)

text \<open>
  C4, as stated, fails in its last part: when the list already holds two internal policies
  for the domain, nothing is appended and nothing removed, and two entries name the
  domain afterwards, not exactly one.
\<close>

theorem two_policies_stay_two:
  "fst (ensureTlsPolicy caddyEnv optApp ''app.localhost''
          (start (treePolicies [internalPolicy ''app.localhost'', internalPolicy ''app.localhost''])))
     = Return ()
   \<and> lookup policiesPath (world (snd (ensureTlsPolicy caddyEnv optApp ''app.localhost''
          (start (treePolicies [internalPolicy ''app.localhost'', internalPolicy ''app.localhost''])))))
     = Some (JArr [internalPolicy ''app.localhost'', internalPolicy ''app.localhost''])
   \<and> length (filter (policyMatches ''app.localhost'')
        [internalPolicy ''app.localhost'', internalPolicy ''app.localhost'']) = 2"
proof -
  let ?ps = "[internalPolicy ''app.localhost'', internalPolicy ''app.localhost'']"
  have m: "list_ex (policyMatches ''app.localhost'') ?ps"
    by (simp add: policyMatches_internal)
  from ensureTlsPolicy_run[OF caddyEnv_serve lookup_treePolicies[of ?ps], where opt = optApp
      and d = "''app.localhost''" and t = "[]"] m
  have "ensureTlsPolicy caddyEnv optApp ''app.localhost'' (start (treePolicies ?ps))
      = log optApp (''TLS automation policy already present for '' @ ''app.localhost'')
          \<lparr>world = treePolicies ?ps, trace = [] @ tlsReads optApp\<rparr>"
    by (simp add: start_def)
  then show ?thesis
    by (simp add: log_returns log_world lookup_treePolicies policyMatches_internal del: lookup.simps)
qed

theorem ensureTlsPolicy_policy_witness:
  "fst (ensureTlsPolicy caddyEnv optApp ''app.localhost'' (start (treePolicies []))) = Return ()
   \<and> lookup policiesPath
        (world (snd (ensureTlsPolicy caddyEnv optApp ''app.localhost'' (start (treePolicies [])))))
       = Some (JArr [internalPolicy ''app.localhost''])
   \<and> writes (trace (snd (ensureTlsPolicy caddyEnv optApp ''app.localhost'' (start (treePolicies [])))))
       = [postRequest (configUrl optApp policiesPath) (internalPolicy ''app.localhost'')]
   \<and> world (snd (ensureTlsPolicy caddyEnv optApp ''app.localhost''
        (start (treePolicies [internalPolicy ''app.localhost'']))))
       = treePolicies [internalPolicy ''app.localhost'']
   \<and> writes (trace (snd (ensureTlsPolicy caddyEnv optApp ''app.localhost''
        (start (treePolicies [internalPolicy ''app.localhost''])))))
       = []"
proof -
  let ?d = "''app.localhost''"
  have n: "\<not> list_ex (policyMatches ?d) []" by simp
  have y: "list_ex (policyMatches ?d) [internalPolicy ?d]" by (simp add: policyMatches_internal)
  note a = ensureTlsPolicy_policy[OF caddyEnv_serve lookup_treePolicies[of "[]"], where opt = optApp
      and d = ?d and t = "[]"]
  note b = ensureTlsPolicy_policy[OF caddyEnv_serve lookup_treePolicies[of "[internalPolicy ?d]"],
      where opt = optApp and d = ?d and t = "[]"]
  from a[THEN conjunct1]
  have 1: "fst (ensureTlsPolicy caddyEnv optApp ?d (start (treePolicies []))) = Return ()"
    by (simp add: start_def)
  from a[THEN conjunct2, THEN conjunct1] n
  have 2: "lookup policiesPath (world (snd (ensureTlsPolicy caddyEnv optApp ?d (start (treePolicies [])))))
       = Some (JArr [internalPolicy ?d])"
    by (simp add: start_def internalPolicy_def del: lookup.simps)
  from a[THEN conjunct2, THEN conjunct2, THEN conjunct2, THEN conjunct1] n
  have 3: "writes (trace (snd (ensureTlsPolicy caddyEnv optApp ?d (start (treePolicies [])))))
       = [postRequest (configUrl optApp policiesPath) (internalPolicy ?d)]"
    by (simp add: start_def writes_simps)
  from b[THEN conjunct2, THEN conjunct2, THEN conjunct1] y
  have 4: "world (snd (ensureTlsPolicy caddyEnv optApp ?d (start (treePolicies [internalPolicy ?d]))))
       = treePolicies [internalPolicy ?d]"
    by (simp add: start_def)
  from b[THEN conjunct2, THEN conjunct2, THEN conjunct2, THEN conjunct1] y
  have 5: "writes (trace (snd (ensureTlsPolicy caddyEnv optApp ?d (start (treePolicies [internalPolicy ?d])))))
       = []"
    by (simp add: start_def writes_simps)
  from 1 2 3 4 5 show ?thesis by blast
qed


section \<open>Running the bootstrap twice\<close>

lemma seed_run:
  "ensureCaddyServerExists caddyEnv opt d (start JNull)
     = (Return (),
        \<lparr>world = seedConfig opt d,
         trace = [Fetch (getRequest (configUrl opt [])),
                  Fetch (postRequest (Url (adminUrl opt) [''load'']) (seedConfig opt d))]
                 @ (if verbose opt then [ConsoleLog [tag, ''Initialized Caddy config; server '' @ quoted (serverId opt) @ '' on ''
                    @ joinComma (listen opt) @ ''; TLS internal for '' @ d]] else [])\<rparr>)"
  by (simp add: ensureCaddyServerExists_def andThen_def get_caddy[OF caddyEnv_serve]
      post_load_caddy[OF caddyEnv_serve] start_def nullish_def log_def emit_def ret_def)

text \<open>
  C3. The two paths that create the server write the wanted listen list as it is given
  (the seed of an empty configuration, and the PUT of the server object), while the path
  for a server that is there builds the list through \<open>new Set(opt.listen)\<close>. With the
  wanted list \<open>[":443", ":443"]\<close> and the empty configuration, the first run seeds the
  server with \<open>:443\<close> twice; the second run reads that list back and writes \<open>:443\<close> once.
  The tree after two runs is not the tree after one.
\<close>

theorem bootstrap_twice_differs:
  "fst (ensureCaddyServerExists caddyEnv optDup ''app.localhost'' (start JNull)) = Return ()
   \<and> lookup (serverBase optDup @ [''listen''])
        (world (snd (ensureCaddyServerExists caddyEnv optDup ''app.localhost'' (start JNull))))
       = Some (JArr [JStr '':443'', JStr '':443''])
   \<and> fst (ensureCaddyServerExists caddyEnv optDup ''app.localhost''
            (snd (ensureCaddyServerExists caddyEnv optDup ''app.localhost'' (start JNull))))
       = Return ()
   \<and> lookup (serverBase optDup @ [''listen''])
        (world (snd (ensureCaddyServerExists caddyEnv optDup ''app.localhost''
            (snd (ensureCaddyServerExists caddyEnv optDup ''app.localhost'' (start JNull))))))
       = Some (JArr [JStr '':443''])
   \<and> world (snd (ensureCaddyServerExists caddyEnv optDup ''app.localhost''
            (snd (ensureCaddyServerExists caddyEnv optDup ''app.localhost'' (start JNull)))))
       \<noteq> world (snd (ensureCaddyServerExists caddyEnv optDup ''app.localhost'' (start JNull)))"
proof -
  let ?d = "''app.localhost''"
  let ?run1 = "ensureCaddyServerExists caddyEnv optDup ?d (start JNull)"
  have v: "\<not> verbose optDup" by (simp add: optDup_def optApp_def opt0_def)
  have r1: "?run1 = (Return (), \<lparr>world = seedConfig optDup ?d,
         trace = [Fetch (getRequest (configUrl optDup [])),
                  Fetch (postRequest (Url (adminUrl optDup) [''load'']) (seedConfig optDup ?d))]\<rparr>)"
    using seed_run[of optDup ?d] v by simp
  have r2: "fst (ensureCaddyServerExists caddyEnv optDup ?d (snd ?run1)) = Return ()
     \<and> world (snd (ensureCaddyServerExists caddyEnv optDup ?d (snd ?run1)))
        = JObj [(''apps'',
       JObj [(''http'', JObj [(''servers'', JObj [(''vite-dev'',
                JObj [(''listen'', JArr [JStr '':443'']), (''routes'', JArr [])])])]),
             (''tls'', JObj [(''automation'',
                JObj [(''policies'', JArr [internalPolicy ''app.localhost''])])])])]"
    unfolding r1
    by (simp add: ensureCaddyServerExists_def updateServer_def syncListen_def enableAutoHttps_def
      ensureTlsPolicy_def ensurePath_def io_defs caddyEnv_def caddy_def optDup_def optApp_def opt0_def
      seedConfig_def serverObject_def
      configUrl_def serverBase_def policiesPath_def listenUrl_def autoUrl_def
      getRequest_def putRequest_def okJson_def okEmpty_def notFound_def ok_def nullish_def
      spreadCurrent_def spread_def cellsOf_def primitive_def newSet_def arraysEqual_def
      jsonOf_def joinCells_def castPolicies_def policiesOf_def findIndex_def policyMatches_def
      internalPolicy_def)
  have l1: "lookup (serverBase optDup @ [''listen'']) (seedConfig optDup ?d) = Some (JArr [JStr '':443'', JStr '':443''])"
    by (simp add: serverBase_def seedConfig_def serverObject_def optDup_def optApp_def opt0_def)
  show ?thesis
    using r1 r2 l1
    by (simp add: serverBase_def seedConfig_def serverObject_def optDup_def optApp_def opt0_def)
qed


section \<open>Route reconciliation\<close>

subsection \<open>The two readings of a route agree\<close>

lemma field_optField:
  "map_of (optField k v enc) k' = (if k' = k then map_option enc v else None)"
  by (cases v) (simp_all add: optField_def)

lemma matchesHostJs_typed: "matchesHostJs (map jsonOfMatcher ms) h = Inr (matchesHost ms h)"
proof (induction ms)
  case Nil
  show ?case by simp
next
  case (Cons m ms)
  have "(case field ''host'' (jsonOfMatcher m) of Some (JArr hs) \<Rightarrow> JStr h \<in> set hs | _ \<Rightarrow> False)
      = (case host m of Some hs \<Rightarrow> h \<in> set hs | None \<Rightarrow> False)"
    by (cases "host m") (auto simp: jsonOfMatcher_def optField_def)
  with Cons show ?case by (simp add: jsonOfMatcher_def)
qed

lemma match_jsonOfRoute:
  "(case field ''match'' (jsonOfRoute r) of Some (JArr ms) \<Rightarrow> ms | _ \<Rightarrow> [])
     = map jsonOfMatcher (case match r of Some ms \<Rightarrow> ms | None \<Rightarrow> [])"
  by (cases "match r"; cases "handle r"; cases "terminal r")
     (simp_all add: jsonOfRoute_def optField_def)

lemma handle_jsonOfRoute:
  "(case field ''handle'' (jsonOfRoute r) of Some (JArr hs) \<Rightarrow> hs | _ \<Rightarrow> [])
     = map jsonOfHandler (case handle r of Some hs \<Rightarrow> hs | None \<Rightarrow> [])"
  by (cases "match r"; cases "handle r"; cases "terminal r")
     (simp_all add: jsonOfRoute_def optField_def)

lemma jsonOfRoute_not_null: "jsonOfRoute r \<noteq> JNull"
  by (simp add: jsonOfRoute_def)

lemma findFromJs_typed:
  "findFromJs i (map (\<lambda>r. Some (jsonOfRoute r)) rs) h =
     Inr \<lparr>route = map_option jsonOfRoute (route (findFrom i rs h)), index = index (findFrom i rs h)\<rparr>"
proof (induction rs arbitrary: i)
  case Nil
  show ?case by simp
next
  case (Cons r rs)
  show ?case
    using Cons[of "i + 1"]
    by (simp add: jsonOfRoute_not_null match_jsonOfRoute matchesHostJs_typed)
qed

lemma findRouteByHostJs_typed:
  "findRouteByHostJs (Some (JArr (map jsonOfRoute rs))) h =
     Inr \<lparr>route = map_option jsonOfRoute (route (findRouteByHost (Some rs) h)),
          index = index (findRouteByHost (Some rs) h)\<rparr>"
  using findFromJs_typed[of 0 rs h]
  by (simp add: findRouteByHostJs_def truthy_def loopItems_def findRouteByHost_def comp_def)

lemma scanHandlersJs_typed: "scanHandlersJs (map jsonOfHandler hs) = Inr (scanHandlers hs)"
proof (induction hs)
  case Nil
  show ?case by simp
next
  case (Cons h hs)
  show ?case
  proof (cases "upstreams h")
    case None
    with Cons show ?thesis by (simp add: jsonOfHandler_def optField_def)
  next
    case (Some us)
    show ?thesis
    proof (cases us)
      case Nil
      with Some Cons show ?thesis by (simp add: jsonOfHandler_def optField_def)
    next
      case (Cons u us')
      with Some Cons.IH show ?thesis
        by (simp add: jsonOfHandler_def optField_def jsonOfUpstream_def split: option.splits)
    qed
  qed
qed

lemma extractUpstreamPortJs_typed:
  "extractUpstreamPortJs (jsonOfRoute r) = Inr (extractUpstreamPort r)"
  by (simp add: extractUpstreamPortJs_def jsonOfRoute_not_null handle_jsonOfRoute
      scanHandlersJs_typed extractUpstreamPort_def)

lemma extractJs_new: "extractUpstreamPortJs (jsonOfRoute (newRoute d p)) = Inr (Some p)"
  by (simp add: extractUpstreamPortJs_typed extract_new)

subsection \<open>Where a route is found\<close>

lemma findFromJs_position:
  "findFromJs k rs d = Inr \<lparr>route = Some r, index = i\<rparr> \<Longrightarrow>
     k \<le> i \<and> nat (i - k) < length rs \<and> rs ! nat (i - k) = Some r"
proof (induction rs arbitrary: k)
  case Nil
  then show ?case by simp
next
  case (Cons a rs)
  from Cons.prems obtain v hit where a: "a = Some v" and nn: "v \<noteq> JNull"
    and m: "matchesHostJs (case field ''match'' v of Some (JArr ms) \<Rightarrow> ms | _ \<Rightarrow> []) d = Inr hit"
    by (auto split: option.splits if_splits sum.splits)
  show ?case
  proof (cases hit)
    case True
    with Cons.prems a nn m show ?thesis by simp
  next
    case False
    with Cons.prems a nn m have "findFromJs (k + 1) rs d = Inr \<lparr>route = Some r, index = i\<rparr>"
      by simp
    from Cons.IH[OF this] have "k + 1 \<le> i" "nat (i - (k + 1)) < length rs"
      "rs ! nat (i - (k + 1)) = Some r" by auto
    moreover from this(1) have "nat (i - k) = Suc (nat (i - (k + 1)))" by simp
    ultimately show ?thesis by simp
  qed
qed

lemma found_in_array:
  assumes "findRouteByHostJs (Some (JArr rs)) d = Inr \<lparr>route = Some r, index = i\<rparr>"
  shows "0 \<le> i \<and> nat i < length rs \<and> rs ! nat i = r \<and> showInt i = showNat (nat i)"
proof -
  from assms have "findFromJs 0 (map Some rs) d = Inr \<lparr>route = Some r, index = i\<rparr>"
    by (simp add: findRouteByHostJs_def truthy_def loopItems_def)
  from findFromJs_position[OF this] show ?thesis
    by (auto simp: showInt_def)
qed


subsection \<open>The main flow\<close>

lemma getRoutes_run:
  assumes "serve e (getRequest (configUrl opt (routesPath opt))) (world s) = (resp, wb)"
    and "ok resp" and "content resp = JsonText rj"
  shows "getRoutes e opt s =
     (Return (Some rj),
      \<lparr>world = wb, trace = trace s @ [Fetch (getRequest (configUrl opt (routesPath opt)))]\<rparr>)"
  using assms(2,3) by (simp add: getRoutes_def get_value[OF assms(1)] parseText_def ret_def)

lemma wireDomain_reconcile:
  assumes "address server = Some P" and "P \<noteq> 0"
    and "computeDomain (runtime e)
           \<lparr>domainOptions.domain = domain opt, nameSource = Some (nameSource opt),
            tld = Some (tld opt), cwd = None\<rparr> = d"
    and "ensureCaddyServerExists e opt d si = (Return (), sb)"
    and "serve e (getRequest (configUrl opt (routesPath opt))) (world sb) = (resp, wb)"
    and "ok resp" and "content resp = JsonText rj"
  shows "wireDomain e opt server si =
     reconcile e opt server d P (Some rj)
       \<lparr>world = wb,
        trace = trace (snd (checkHostsForLocal e d sb))
                @ [Fetch (getRequest (configUrl opt (routesPath opt)))]\<rparr>"
proof -
  obtain sc where c: "checkHostsForLocal e d sb = (Return (), sc)"
    using checkHosts_returns[of e d sb] by (cases "checkHostsForLocal e d sb") simp
  have w: "world sc = world sb"
    using checkHosts_world[of e d sb] c by simp
  from assms(5) w have "serve e (getRequest (configUrl opt (routesPath opt))) (world sc) = (resp, wb)"
    by simp
  from getRoutes_run[OF this assms(6,7)] assms(1-4) c show ?thesis
    by (simp add: wireDomain_def andThen_def Let_def)
qed

lemma reconcile_dead:
  assumes f: "findRouteByHostJs routes d = Inr \<lparr>route = Some r, index = i\<rparr>"
    and x: "extractUpstreamPortJs r = Inr (Some E)"
    and dead: "\<not> portActive e E" and p: "P \<noteq> 0"
  shows "reconcile e opt server d P routes s =
     andThen (if E \<noteq> P then replaceRouteAt e opt i d P else ret ())
       (\<lambda>_. printWhereToBrowse opt d)
       (s\<lparr>trace := trace s @ (if E = 0 then [] else [Probe E])\<rparr>)"
  using assms
  by (simp add: reconcile_def lift_def probePort_def andThen_def emit_def ret_def)

lemma reconcile_dead_writes:
  assumes f: "findRouteByHostJs routes d = Inr \<lparr>route = Some r, index = i\<rparr>"
    and x: "extractUpstreamPortJs r = Inr (Some E)"
    and dead: "\<not> portActive e E" and p: "P \<noteq> 0"
  shows "writes (trace (snd (reconcile e opt server d P routes s))) =
           writes (trace s) @
           (if E \<noteq> P
            then [putRequest (configUrl opt (routesPath opt @ [showInt i])) (jsonOfRoute (newRoute d P))]
            else [])"
proof -
  let ?sp = "s\<lparr>trace := trace s @ (if E = 0 then [] else [Probe E])\<rparr>"
  let ?rq = "putRequest (configUrl opt (routesPath opt @ [showInt i])) (jsonOfRoute (newRoute d P))"
  have wp: "writes (trace ?sp) = writes (trace s)"
    by (simp add: writes_append writes_simps)
  have m: "verb ?rq \<noteq> GET" by (simp add: putRequest_def)
  show ?thesis
  proof (cases "E = P")
    case True
    then show ?thesis
      unfolding reconcile_dead[OF assms]
      using wp by (simp add: andThen_def ret_def print_run writes_append writes_simps)
  next
    case False
    then show ?thesis
      unfolding reconcile_dead[OF assms]
      using replaceRouteAt_state[of e opt i d P ?sp] m wp
      by (cases "replaceRouteAt e opt i d P ?sp"; cases "fst (replaceRouteAt e opt i d P ?sp)")
         (auto simp: andThen_def print_run writes_append writes_simps)
  qed
qed

lemma replaceRouteAt_caddy:
  assumes "serve e = caddy"
    and "store (routesPath opt @ [showInt i]) (jsonOfRoute (newRoute d P)) (world s) = Some w'"
  shows "replaceRouteAt e opt i d P s =
     (Return (),
      \<lparr>world = w',
       trace = trace s @ [Fetch (putRequest (configUrl opt (routesPath opt @ [showInt i]))
                                   (jsonOfRoute (newRoute d P)))]\<rparr>)"
  using assms(2) by (simp add: replaceRouteAt_def andThen_def put_caddy[OF assms(1)] ret_def)

lemma caddy_get:
  "caddy (getRequest (configUrl opt p)) w =
     ((case lookup p w of Some v \<Rightarrow> okJson v | None \<Rightarrow> notFound), w)"
  by (cases "lookup p w") (simp_all add: caddy_def configUrl_def getRequest_def)

lemma caddy_get_value:
  assumes "caddy (getRequest (configUrl opt p)) w = (resp, wb)" and "ok resp"
    and "content resp = JsonText v"
  shows "wb = w \<and> lookup p w = Some v"
  using assms
  by (cases "lookup p w") (auto simp: caddy_get ok_def okJson_def notFound_def)

text \<open>
  C1, amended. Let \<open>wireDomain\<close> have found the port \<open>P\<close> of the dev server, let the
  bootstrap have returned, and let the admin endpoint answer the GET on the routes path
  with the array \<open>rs\<close>, in which \<open>findRouteByHost\<close> finds a route for the domain at index
  \<open>i\<close> whose upstream port, as \<open>extractUpstreamPort\<close> reads it, is \<open>E\<close>, a port that
  accepts no connection. When \<open>E\<close> differs from \<open>P\<close>, the run makes one write, the PUT of
  the route for the domain to \<open>127.0.0.1:P\<close> at \<open>routes/i\<close>; on the configuration tree
  the run returns and the routes afterwards are \<open>rs\<close> with the element at \<open>i\<close> replaced by
  that route, whose upstream port is \<open>P\<close>. When \<open>E\<close> equals \<open>P\<close>, the run makes no write
  and the routes stay \<open>rs\<close>.
\<close>

theorem wireDomain_stale_route:
  assumes "address server = Some P" and "P \<noteq> 0"
    and "computeDomain (runtime e)
           \<lparr>domainOptions.domain = domain opt, nameSource = Some (nameSource opt),
            tld = Some (tld opt), cwd = None\<rparr> = d"
    and "ensureCaddyServerExists e opt d si = (Return (), sb)"
    and "serve e (getRequest (configUrl opt (routesPath opt))) (world sb) = (resp, wb)"
    and "ok resp" and "content resp = JsonText (JArr rs)"
    and "findRouteByHostJs (Some (JArr rs)) d = Inr \<lparr>route = Some r, index = i\<rparr>"
    and "extractUpstreamPortJs r = Inr (Some E)" and "\<not> portActive e E"
  shows "writes (trace (snd (wireDomain e opt server si))) =
           writes (trace sb) @
           (if E \<noteq> P
            then [putRequest (configUrl opt (routesPath opt @ [showInt i]))
                    (jsonOfRoute (newRoute d P))]
            else [])
     \<and> (serve e = caddy \<longrightarrow>
          fst (wireDomain e opt server si) = Return ()
          \<and> lookup (routesPath opt) (world (snd (wireDomain e opt server si))) =
              Some (JArr (if E \<noteq> P then rs[nat i := jsonOfRoute (newRoute d P)] else rs)))
     \<and> extractUpstreamPortJs (jsonOfRoute (newRoute d P)) = Inr (Some P)"
proof -
  let ?g = "Fetch (getRequest (configUrl opt (routesPath opt)))"
  let ?s2 = "\<lparr>world = wb, trace = trace (snd (checkHostsForLocal e d sb)) @ [?g]\<rparr>"
  let ?sp = "?s2\<lparr>trace := trace ?s2 @ (if E = 0 then [] else [Probe E])\<rparr>"
  let ?x = "jsonOfRoute (newRoute d P)"
  note wr = wireDomain_reconcile[OF assms(1-7)]
  have wb: "writes (trace ?s2) = writes (trace sb)"
    by (simp add: writes_append writes_simps checkHosts_writes getRequest_def)
  have 1: "writes (trace (snd (wireDomain e opt server si))) =
           writes (trace sb) @
           (if E \<noteq> P then [putRequest (configUrl opt (routesPath opt @ [showInt i])) ?x] else [])"
    unfolding wr using reconcile_dead_writes[OF assms(8-10) assms(2), of opt server ?s2] wb by simp
  have 2: "fst (wireDomain e opt server si) = Return ()
          \<and> lookup (routesPath opt) (world (snd (wireDomain e opt server si))) =
              Some (JArr (if E \<noteq> P then rs[nat i := ?x] else rs))"
    if cd: "serve e = caddy"
  proof -
    from assms(5) cd have "caddy (getRequest (configUrl opt (routesPath opt))) (world sb) = (resp, wb)"
      by simp
    from caddy_get_value[OF this assms(6,7)]
    have e2: "wb = world sb" and l: "lookup (routesPath opt) wb = Some (JArr rs)" by simp_all
    from found_in_array[OF assms(8)] have i: "nat i < length rs" "showInt i = showNat (nat i)"
      by simp_all
    show ?thesis
    proof (cases "E = P")
      case True
      then show ?thesis
        unfolding wr reconcile_dead[OF assms(8-10) assms(2)]
        using l by (simp add: andThen_def ret_def print_run del: lookup.simps)
    next
      case False
      from store_element[OF l i(1), of ?x] obtain w' where
        st: "store (routesPath opt @ [showNat (nat i)]) ?x wb = Some w'"
        and l': "lookup (routesPath opt) w' = Some (JArr (rs[nat i := ?x]))" by blast
      from st i(2) have "store (routesPath opt @ [showInt i]) ?x (world ?sp) = Some w'"
        by simp
      from replaceRouteAt_caddy[OF cd this] False l' show ?thesis
        unfolding wr reconcile_dead[OF assms(8-10) assms(2)]
        by (simp add: andThen_def print_run del: lookup.simps)
    qed
  qed
  from 1 2 extractJs_new[of d P] show ?thesis by blast
qed

lemma reconcile_conflict:
  assumes f: "findRouteByHostJs routes d = Inr \<lparr>route = Some r, index = i\<rparr>"
    and x: "extractUpstreamPortJs r = Inr (Some E)" and nz: "E \<noteq> 0"
    and alive: "portActive e E" and ne: "E \<noteq> P" and ff: "failOnActiveDomain opt"
  shows "reconcile e opt server d P routes s =
    (Exit 1, s\<lparr>trace := trace s @ [Probe E, ConsoleError [tag, conflictMessage d E]]
                 @ (if close server = NoClose then [] else [ServerClose])\<rparr>)"
  using assms
  by (cases "close server")
     (simp_all add: reconcile_def lift_def Let_def probePort_def andThen_def emit_def ret_def err_def
        ignoreThrow_def closeServer_def exit_def throw_def)

text \<open>
  C2, amended. In the same situation, but with the port \<open>E\<close> accepting a connection,
  \<open>E\<close> different from \<open>P\<close> and \<open>failOnActiveDomain\<close> set, \<open>wireDomain\<close> probes the
  port, prints the conflict message with \<open>console.error\<close>, calls \<open>close\<close> on the dev
  server when it has one (a rejection is ignored) and ends the process with
  \<open>Deno.exit(1)\<close>. After the bootstrap it sends no request but the GET of the routes: it
  makes no write, and on the configuration tree the tree is as the bootstrap left it. It
  neither returns nor throws to its caller.
\<close>

theorem wireDomain_conflict_exits:
  assumes "address server = Some P" and "P \<noteq> 0"
    and "computeDomain (runtime e)
           \<lparr>domainOptions.domain = domain opt, nameSource = Some (nameSource opt),
            tld = Some (tld opt), cwd = None\<rparr> = d"
    and "ensureCaddyServerExists e opt d si = (Return (), sb)"
    and "serve e (getRequest (configUrl opt (routesPath opt))) (world sb) = (resp, wb)"
    and "ok resp" and "content resp = JsonText rj"
    and "findRouteByHostJs (Some rj) d = Inr \<lparr>route = Some r, index = i\<rparr>"
    and "extractUpstreamPortJs r = Inr (Some E)" and "E \<noteq> 0" and "portActive e E"
    and "E \<noteq> P" and "failOnActiveDomain opt"
  shows "wireDomain e opt server si =
           (Exit 1,
            \<lparr>world = wb,
             trace = trace (snd (checkHostsForLocal e d sb))
               @ [Fetch (getRequest (configUrl opt (routesPath opt))),
                  Probe E, ConsoleError [tag, conflictMessage d E]]
               @ (if close server = NoClose then [] else [ServerClose])\<rparr>)
         \<and> writes (trace (snd (wireDomain e opt server si))) = writes (trace sb)
         \<and> (serve e = caddy \<longrightarrow> world (snd (wireDomain e opt server si)) = world sb)"
proof -
  note wr = wireDomain_reconcile[OF assms(1-7)]
  note rc = reconcile_conflict[OF assms(8-13)]
  have 1: "wireDomain e opt server si =
           (Exit 1,
            \<lparr>world = wb,
             trace = trace (snd (checkHostsForLocal e d sb))
               @ [Fetch (getRequest (configUrl opt (routesPath opt))),
                  Probe E, ConsoleError [tag, conflictMessage d E]]
               @ (if close server = NoClose then [] else [ServerClose])\<rparr>)"
    unfolding wr rc by simp
  have 2: "writes (trace (snd (wireDomain e opt server si))) = writes (trace sb)"
    unfolding 1 by (simp add: writes_append writes_simps checkHosts_writes getRequest_def)
  have 3: "world (snd (wireDomain e opt server si)) = world sb" if cd: "serve e = caddy"
  proof -
    from assms(5) cd have "caddy (getRequest (configUrl opt (routesPath opt))) (world sb) = (resp, wb)"
      by simp
    from caddy_get_value[OF this assms(6,7)] show ?thesis
      unfolding 1 by simp
  qed
  from 1 2 3 show ?thesis by blast
qed


lemma boot_scene:
  "ensureCaddyServerExists (envLive l) optApp ''app.localhost'' \<lparr>world = treeWith rs, trace = t\<rparr>
   = (Return (),
      \<lparr>world = treeWith rs,
       trace = t @ map (\<lambda>p. Fetch (getRequest (configUrl optApp p)))
         [[], serverBase optApp, serverBase optApp @ [''listen''],
          serverBase optApp @ [''automatic_https''], [''apps''], [''apps'', ''tls''],
          [''apps'', ''tls'', ''automation''], policiesPath, policiesPath]\<rparr>)"
  by (simp add: ensureCaddyServerExists_def updateServer_def syncListen_def enableAutoHttps_def
      ensureTlsPolicy_def ensurePath_def io_defs scene_defs nullish_def spreadCurrent_def spread_def
      cellsOf_def primitive_def newSet_def arraysEqual_def
      castPolicies_def policiesOf_def findIndex_def policyMatches_def internalPolicy_def)

lemma domain_scene:
  "computeDomain (runtime (envLive l))
     \<lparr>domainOptions.domain = domain optApp, nameSource = Some (nameSource optApp),
      tld = Some (tld optApp), cwd = None\<rparr> = ''app.localhost''"
  by (simp add: computeDomain_def optApp_def opt0_def)

lemma serve_scene:
  "serve (envLive l) (getRequest (configUrl optApp (routesPath optApp))) (treeWith rs)
     = (okJson (JArr rs), treeWith rs)"
  by (simp add: scene_defs)

lemma envLive_serve: "serve (envLive l) = caddy"
  by (simp add: envLive_def caddyEnv_def)

lemma find_single:
  "findRouteByHost (Some [newRoute d p]) d = \<lparr>route = Some (newRoute d p), index = 0\<rparr>"
  by (simp add: findRouteByHost_def newRoute_def)

lemma findJs_single:
  "findRouteByHostJs (Some (JArr [jsonOfRoute (newRoute d p)])) d
     = Inr \<lparr>route = Some (jsonOfRoute (newRoute d p)), index = 0\<rparr>"
  using findRouteByHostJs_typed[of "[newRoute d p]" d] by (simp add: find_single)

lemma content_okJson: "content (okJson v) = JsonText v"
  by (simp add: okJson_def)

lemma boot_scene_start:
  "ensureCaddyServerExists (envLive l) optApp ''app.localhost'' (start (treeWith rs))
   = (Return (),
      \<lparr>world = treeWith rs,
       trace = map (\<lambda>p. Fetch (getRequest (configUrl optApp p)))
         [[], serverBase optApp, serverBase optApp @ [''listen''],
          serverBase optApp @ [''automatic_https''], [''apps''], [''apps'', ''tls''],
          [''apps'', ''tls'', ''automation''], policiesPath, policiesPath]\<rparr>)"
  using boot_scene[of l rs "[]"] by (simp add: start_def)

lemma writes_reads: "writes (map (\<lambda>p. Fetch (getRequest (configUrl opt p))) ps) = []"
  by (induction ps) (simp_all add: writes_simps getRequest_def)

lemma showInt_0: "showInt 0 = ''0''"
  by (simp add: showInt_def showNat.simps digitChar_def)

lemma routes_treeWith: "lookup (routesPath optApp) (treeWith rs) = Some (JArr rs)"
  by (simp add: routesPath_def serverBase_def optApp_def opt0_def treeWith_def)

theorem wireDomain_stale_route_witness:
  "writes (trace (snd (wireDomain (envLive []) optApp (devServer 5173)
      (start (treeWith [jsonOfRoute (newRoute ''app.localhost'' 5174)])))))
   = [putRequest
        (Url ''http://127.0.0.1:2019''
           [''config'', ''apps'', ''http'', ''servers'', ''vite-dev'', ''routes'', ''0''])
        (jsonOfRoute (newRoute ''app.localhost'' 5173))]
   \<and> fst (wireDomain (envLive []) optApp (devServer 5173)
      (start (treeWith [jsonOfRoute (newRoute ''app.localhost'' 5174)]))) = Return ()
   \<and> lookup (routesPath optApp)
        (world (snd (wireDomain (envLive []) optApp (devServer 5173)
           (start (treeWith [jsonOfRoute (newRoute ''app.localhost'' 5174)])))))
      = Some (JArr [jsonOfRoute (newRoute ''app.localhost'' 5173)])"
proof -
  let ?e = "envLive []"
  let ?rs = "[jsonOfRoute (newRoute ''app.localhost'' 5174)]"
  let ?run = "wireDomain ?e optApp (devServer 5173) (start (treeWith ?rs))"
  let ?t1 = "map (\<lambda>p. Fetch (getRequest (configUrl optApp p)))
         [[], serverBase optApp, serverBase optApp @ [''listen''],
          serverBase optApp @ [''automatic_https''], [''apps''], [''apps'', ''tls''],
          [''apps'', ''tls'', ''automation''], policiesPath, policiesPath]"
  let ?sb = "\<lparr>world = treeWith ?rs, trace = ?t1\<rparr>"
  have a: "address (devServer 5173) = Some 5173" "(5173::nat) \<noteq> 0"
    by (simp_all add: devServer_def)
  have sv: "serve ?e (getRequest (configUrl optApp (routesPath optApp))) (world ?sb)
      = (okJson (JArr ?rs), treeWith ?rs)"
    using serve_scene[of "[]" ?rs] by simp
  have d: "\<not> portActive ?e 5174" "(5174::nat) \<noteq> 5173"
    by (simp_all add: envLive_def)
  note t = wireDomain_stale_route[OF a domain_scene boot_scene_start sv ok_okJson content_okJson
      findJs_single extractJs_new d(1)]
  have w1: "writes (trace ?sb) = []"
    by (simp only: state.select_convs writes_reads)
  from t[THEN conjunct1, unfolded w1] d(2)
  have 1: "writes (trace (snd ?run))
     = [putRequest (configUrl optApp (routesPath optApp @ [showInt 0]))
          (jsonOfRoute (newRoute ''app.localhost'' 5173))]"
    by simp
  from t[THEN conjunct2, THEN conjunct1] envLive_serve d(2)
  have 2: "fst ?run = Return ()
     \<and> lookup (routesPath optApp) (world (snd ?run))
        = Some (JArr [jsonOfRoute (newRoute ''app.localhost'' 5173)])"
    by simp
  from 1 2 show ?thesis
    by (simp add: showInt_0 configUrl_def routesPath_def serverBase_def optApp_def opt0_def)
qed

lemma other_port: "extractUpstreamPort otherHostRoute = Some 5173"
proof -
  have "trim ''192.168.1.7:5173'' = ''192.168.1.7:5173''"
    by (simp add: trim_def isSpace_def)
  moreover have "execPort ''192.168.1.7:5173'' = Some ''5173''"
    by (simp add: isDigit_def)
  moreover have "Number ''5173'' = 5173"
    by (simp add: Number_def digitVal_def)
  ultimately show ?thesis
    by (simp add: extractUpstreamPort_def otherHostRoute_def)
qed

lemma otherJs_port: "extractUpstreamPortJs (jsonOfRoute otherHostRoute) = Inr (Some 5173)"
  by (simp add: extractUpstreamPortJs_typed other_port)

lemma otherJs_found:
  "findRouteByHostJs (Some (JArr [jsonOfRoute otherHostRoute])) ''app.localhost''
     = Inr \<lparr>route = Some (jsonOfRoute otherHostRoute), index = 0\<rparr>"
  using findRouteByHostJs_typed[of "[otherHostRoute]" "''app.localhost''"]
  by (simp add: findRouteByHost_def otherHostRoute_def)

text \<open>
  C1, as stated, fails when \<open>E\<close> equals \<open>P\<close>: the guard \<open>existingPort !== vitePort\<close>
  skips the replacement. The tree holds a route for \<open>app.localhost\<close> whose upstream is
  \<open>192.168.1.7:5173\<close>; nothing listens on 5173 and the dev server is on 5173. The run
  returns without any write and the route stays as it was: it is not the route to
  \<open>127.0.0.1:5173\<close>.
\<close>

theorem stale_route_same_port_kept:
  "findRouteByHostJs (Some (JArr [jsonOfRoute otherHostRoute])) ''app.localhost''
     = Inr \<lparr>route = Some (jsonOfRoute otherHostRoute), index = 0\<rparr>
   \<and> extractUpstreamPortJs (jsonOfRoute otherHostRoute) = Inr (Some 5173)
   \<and> \<not> portActive (envLive []) 5173
   \<and> fst (wireDomain (envLive []) optApp (devServer 5173)
            (start (treeWith [jsonOfRoute otherHostRoute]))) = Return ()
   \<and> writes (trace (snd (wireDomain (envLive []) optApp (devServer 5173)
            (start (treeWith [jsonOfRoute otherHostRoute]))))) = []
   \<and> lookup (routesPath optApp)
        (world (snd (wireDomain (envLive []) optApp (devServer 5173)
            (start (treeWith [jsonOfRoute otherHostRoute])))))
       = Some (JArr [jsonOfRoute otherHostRoute])
   \<and> jsonOfRoute otherHostRoute \<noteq> jsonOfRoute (newRoute ''app.localhost'' 5173)"
proof -
  let ?e = "envLive []"
  let ?rs = "[jsonOfRoute otherHostRoute]"
  let ?run = "wireDomain ?e optApp (devServer 5173) (start (treeWith ?rs))"
  let ?t1 = "map (\<lambda>p. Fetch (getRequest (configUrl optApp p)))
         [[], serverBase optApp, serverBase optApp @ [''listen''],
          serverBase optApp @ [''automatic_https''], [''apps''], [''apps'', ''tls''],
          [''apps'', ''tls'', ''automation''], policiesPath, policiesPath]"
  let ?sb = "\<lparr>world = treeWith ?rs, trace = ?t1\<rparr>"
  have a: "address (devServer 5173) = Some 5173" "(5173::nat) \<noteq> 0"
    by (simp_all add: devServer_def)
  have sv: "serve ?e (getRequest (configUrl optApp (routesPath optApp))) (world ?sb)
      = (okJson (JArr ?rs), treeWith ?rs)"
    using serve_scene[of "[]" ?rs] by simp
  have d: "\<not> portActive ?e 5173"
    by (simp add: envLive_def)
  have ch: "snd (checkHostsForLocal ?e ''app.localhost'' ?sb) = ?sb"
    by (simp add: checkHostsForLocal_def endsWith_def ret_def)
  have "?run = reconcile ?e optApp (devServer 5173) ''app.localhost'' 5173 (Some (JArr ?rs))
       \<lparr>world = treeWith ?rs,
        trace = ?t1 @ [Fetch (getRequest (configUrl optApp (routesPath optApp)))]\<rparr>"
    using wireDomain_reconcile[OF a domain_scene boot_scene_start sv ok_okJson content_okJson]
    by (simp only: ch state.simps)
  also have "\<dots> = (Return (),
       \<lparr>world = treeWith ?rs,
        trace = ?t1 @ [Fetch (getRequest (configUrl optApp (routesPath optApp))), Probe 5173,
          ConsoleLog [''Domain'', browseUrl optApp ''app.localhost'', ''(via caddy)'']]\<rparr>)"
    unfolding reconcile_dead[OF otherJs_found otherJs_port d a(2)]
    by (simp add: andThen_def ret_def print_run)
  finally have r: "?run = (Return (),
       \<lparr>world = treeWith ?rs,
        trace = ?t1 @ [Fetch (getRequest (configUrl optApp (routesPath optApp))), Probe 5173,
          ConsoleLog [''Domain'', browseUrl optApp ''app.localhost'', ''(via caddy)'']]\<rparr>)" .
  have "writes (?t1 @ [Fetch (getRequest (configUrl optApp (routesPath optApp))), Probe 5173,
          ConsoleLog [''Domain'', browseUrl optApp ''app.localhost'', ''(via caddy)'']]) = []"
    unfolding writes_append writes_reads by (simp add: writes_simps getRequest_def)
  then have w: "writes (trace (snd ?run)) = []"
    unfolding r by (simp only: snd_conv state.select_convs)
  have ne: "jsonOfRoute otherHostRoute \<noteq> jsonOfRoute (newRoute ''app.localhost'' 5173)"
    by (simp add: jsonOfRoute_def otherHostRoute_def newRoute_def optField_def jsonOfHandler_def
        jsonOfUpstream_def dialFor_def)
  from r w ne otherJs_found otherJs_port d routes_treeWith[of ?rs] show ?thesis
    by (simp del: lookup.simps)
qed

text \<open>
  C2, as stated, fails: on the scenario of the specification (route to 5174, 5174 alive,
  dev server on 5173, fail-fast set) the run does not signal an error to its caller, it
  ends the process with exit code 1.
\<close>

theorem conflict_ends_process:
  "fst (wireDomain (envLive [5174]) optApp (devServer 5173)
          (start (treeWith [jsonOfRoute (newRoute ''app.localhost'' 5174)]))) = Exit 1"
proof -
  let ?e = "envLive [5174]"
  let ?rs = "[jsonOfRoute (newRoute ''app.localhost'' 5174)]"
  let ?t1 = "map (\<lambda>p. Fetch (getRequest (configUrl optApp p)))
         [[], serverBase optApp, serverBase optApp @ [''listen''],
          serverBase optApp @ [''automatic_https''], [''apps''], [''apps'', ''tls''],
          [''apps'', ''tls'', ''automation''], policiesPath, policiesPath]"
  let ?sb = "\<lparr>world = treeWith ?rs, trace = ?t1\<rparr>"
  have a: "address (devServer 5173) = Some 5173" "(5173::nat) \<noteq> 0"
    by (simp_all add: devServer_def)
  have sv: "serve ?e (getRequest (configUrl optApp (routesPath optApp))) (world ?sb)
      = (okJson (JArr ?rs), treeWith ?rs)"
    using serve_scene[of "[5174]" ?rs] by simp
  have d: "portActive ?e 5174" "(5174::nat) \<noteq> 0" "(5174::nat) \<noteq> 5173" "failOnActiveDomain optApp"
    by (simp_all add: envLive_def optApp_def opt0_def)
  show ?thesis
    unfolding wireDomain_reconcile[OF a domain_scene boot_scene_start sv ok_okJson content_okJson]
      reconcile_conflict[OF findJs_single extractJs_new d(2) d(1) d(3) d(4)]
    by simp
qed

theorem wireDomain_conflict_exits_witness:
  "wireDomain (envLive [5174]) optApp (devServer 5173)
          (start (treeWith [jsonOfRoute (newRoute ''app.localhost'' 5174)]))
     = (Exit 1,
        \<lparr>world = treeWith [jsonOfRoute (newRoute ''app.localhost'' 5174)],
         trace = map (\<lambda>p. Fetch (getRequest (configUrl optApp p)))
           [[], serverBase optApp, serverBase optApp @ [''listen''],
            serverBase optApp @ [''automatic_https''], [''apps''], [''apps'', ''tls''],
            [''apps'', ''tls'', ''automation''], policiesPath, policiesPath, routesPath optApp]
           @ [Probe 5174, ConsoleError [tag, conflictMessage ''app.localhost'' 5174], ServerClose]\<rparr>)
   \<and> writes (trace (snd (wireDomain (envLive [5174]) optApp (devServer 5173)
          (start (treeWith [jsonOfRoute (newRoute ''app.localhost'' 5174)]))))) = []
   \<and> world (snd (wireDomain (envLive [5174]) optApp (devServer 5173)
          (start (treeWith [jsonOfRoute (newRoute ''app.localhost'' 5174)]))))
      = treeWith [jsonOfRoute (newRoute ''app.localhost'' 5174)]"
proof -
  let ?e = "envLive [5174]"
  let ?rs = "[jsonOfRoute (newRoute ''app.localhost'' 5174)]"
  let ?run = "wireDomain ?e optApp (devServer 5173) (start (treeWith ?rs))"
  let ?t1 = "map (\<lambda>p. Fetch (getRequest (configUrl optApp p)))
           [[], serverBase optApp, serverBase optApp @ [''listen''],
            serverBase optApp @ [''automatic_https''], [''apps''], [''apps'', ''tls''],
            [''apps'', ''tls'', ''automation''], policiesPath, policiesPath]"
  let ?sb = "\<lparr>world = treeWith ?rs, trace = ?t1\<rparr>"
  have a: "address (devServer 5173) = Some 5173" "(5173::nat) \<noteq> 0"
    by (simp_all add: devServer_def)
  have sv: "serve ?e (getRequest (configUrl optApp (routesPath optApp))) (world ?sb)
      = (okJson (JArr ?rs), treeWith ?rs)"
    using serve_scene[of "[5174]" ?rs] by simp
  have d: "portActive ?e 5174" "(5174::nat) \<noteq> 0" "(5174::nat) \<noteq> 5173" "failOnActiveDomain optApp"
    by (simp_all add: envLive_def optApp_def opt0_def)
  have c: "close (devServer 5173) \<noteq> NoClose"
    by (simp add: devServer_def)
  have ch: "snd (checkHostsForLocal ?e ''app.localhost'' ?sb) = ?sb"
    by (simp add: checkHostsForLocal_def endsWith_def ret_def)
  note t = wireDomain_conflict_exits[OF a domain_scene boot_scene_start sv ok_okJson content_okJson
      findJs_single extractJs_new d(2) d(1) d(3) d(4)]
  from t[THEN conjunct1] c
  have 1: "?run
     = (Exit 1, \<lparr>world = treeWith ?rs,
         trace = (?t1 @ [Fetch (getRequest (configUrl optApp (routesPath optApp)))])
           @ [Probe 5174, ConsoleError [tag, conflictMessage ''app.localhost'' 5174], ServerClose]\<rparr>)"
    by (simp only: ch state.simps) simp
  have w1: "writes (trace ?sb) = []"
    by (simp only: state.select_convs writes_reads)
  from t[THEN conjunct2, THEN conjunct1, unfolded w1]
  have 2: "writes (trace (snd ?run)) = []" .
  from t[THEN conjunct2, THEN conjunct2] envLive_serve
  have 3: "world (snd ?run) = treeWith ?rs"
    by simp
  from 1 2 3 show ?thesis by simp
qed


section \<open>The port probe\<close>

lemma onEvent_resolved:
  assumes "resolved st"
  shows "resolved (onEvent ev st) \<and> settledWith (onEvent ev st) = settledWith st
     \<and> resolveCalls (onEvent ev st) = resolveCalls st \<and> aborted (onEvent ev st) = aborted st"
  using assms by (cases ev) (simp_all add: onEvent_def done'_def)

lemma foldl_resolved:
  assumes "resolved st"
  shows "resolved (foldl (\<lambda>st ev. onEvent ev st) st es)
     \<and> settledWith (foldl (\<lambda>st ev. onEvent ev st) st es) = settledWith st
     \<and> resolveCalls (foldl (\<lambda>st ev. onEvent ev st) st es) = resolveCalls st
     \<and> aborted (foldl (\<lambda>st ev. onEvent ev st) st es) = aborted st"
  using assms
proof (induction es arbitrary: st)
  case Nil
  then show ?case by simp
next
  case (Cons e es)
  from onEvent_resolved[OF Cons.prems, of e] Cons.IH[of "onEvent e st"] show ?case by simp
qed

lemma first_event:
  "resolved (onEvent ev pending) \<and> settledWith (onEvent ev pending) = Some (ev = ConnectSucceeds)
   \<and> resolveCalls (onEvent ev pending) = 1 \<and> aborted (onEvent ev pending)
   \<and> (ev \<noteq> TimerFires \<longrightarrow> timerCleared (onEvent ev pending))
   \<and> (ev = ConnectSucceeds \<longrightarrow> connClosed (onEvent ev pending))"
  by (cases ev) (simp_all add: onEvent_def done'_def pending_def)

lemma onEvent_cleared: "timerCleared st \<Longrightarrow> timerCleared (onEvent ev st)"
  by (cases ev) (simp_all add: onEvent_def done'_def)

lemma onEvent_closed: "connClosed st \<Longrightarrow> connClosed (onEvent ev st)"
  by (cases ev) (simp_all add: onEvent_def done'_def)

lemma foldl_cleared: "timerCleared st \<Longrightarrow> timerCleared (foldl (\<lambda>st ev. onEvent ev st) st es)"
  by (induction es arbitrary: st) (simp_all add: onEvent_cleared)

lemma foldl_closed: "connClosed st \<Longrightarrow> connClosed (foldl (\<lambda>st ev. onEvent ev st) st es)"
  by (induction es arbitrary: st) (simp_all add: onEvent_closed)

text \<open>
  C10. Whatever events the runtime delivers and in whatever order, \<open>resolve\<close> is called
  at most once; the promise has no way to reject. As soon as one event is delivered the
  promise is resolved, exactly once: with true when the first event is the established
  connection, which is then closed and the timer cleared; with false when the first event
  is a failed connection (the timer is cleared) or the timer (the connection attempt is
  aborted). Later events change neither the value nor the count. A timeout is thus an
  ordinary false, not an error.
\<close>

theorem isPortActive_resolves_once:
  "resolveCalls (isPortActive es) \<le> 1
   \<and> (es \<noteq> [] \<longrightarrow>
        resolved (isPortActive es) \<and> resolveCalls (isPortActive es) = 1
        \<and> settledWith (isPortActive es) = Some (hd es = ConnectSucceeds)
        \<and> aborted (isPortActive es))
   \<and> (es \<noteq> [] \<and> hd es = ConnectSucceeds \<longrightarrow>
        settledWith (isPortActive es) = Some True \<and> connClosed (isPortActive es)
        \<and> timerCleared (isPortActive es))
   \<and> (es \<noteq> [] \<and> hd es = ConnectFails \<longrightarrow>
        settledWith (isPortActive es) = Some False \<and> timerCleared (isPortActive es))
   \<and> (es \<noteq> [] \<and> hd es = TimerFires \<longrightarrow>
        settledWith (isPortActive es) = Some False \<and> aborted (isPortActive es))"
proof (cases es)
  case Nil
  then show ?thesis by (simp add: isPortActive_def pending_def)
next
  case (Cons e rest)
  let ?st = "onEvent e pending"
  note f = first_event[of e]
  from f have r: "resolved ?st" by simp
  note k = foldl_resolved[OF r, of rest]
  have run: "isPortActive es = foldl (\<lambda>st ev. onEvent ev st) ?st rest"
    by (simp add: isPortActive_def Cons)
  have c: "e \<noteq> TimerFires \<longrightarrow> timerCleared (isPortActive es)"
  proof
    assume "e \<noteq> TimerFires"
    with f have "timerCleared ?st" by blast
    from foldl_cleared[OF this, of rest] run show "timerCleared (isPortActive es)" by simp
  qed
  have d: "e = ConnectSucceeds \<longrightarrow> connClosed (isPortActive es)"
  proof
    assume "e = ConnectSucceeds"
    with f have "connClosed ?st" by blast
    from foldl_closed[OF this, of rest] run show "connClosed (isPortActive es)" by simp
  qed
  from f k c d run Cons show ?thesis by (cases e) simp_all
qed

theorem isPortActive_resolves_once_witness:
  "settledWith (isPortActive [TimerFires, ConnectSucceeds]) = Some False
   \<and> resolveCalls (isPortActive [TimerFires, ConnectSucceeds]) = 1
   \<and> connClosed (isPortActive [TimerFires, ConnectSucceeds])
   \<and> settledWith (isPortActive [ConnectSucceeds, TimerFires]) = Some True
   \<and> resolveCalls (isPortActive [ConnectSucceeds, TimerFires]) = 1
   \<and> connClosed (isPortActive [ConnectSucceeds, TimerFires])
   \<and> timerCleared (isPortActive [ConnectSucceeds, TimerFires])
   \<and> settledWith (isPortActive [ConnectFails, TimerFires]) = Some False
   \<and> settledWith (isPortActive [TimerFires, ConnectFails]) = Some False
   \<and> resolveCalls (isPortActive [TimerFires, ConnectFails]) = 1"
proof -
  note a = isPortActive_resolves_once[of "[TimerFires, ConnectSucceeds]"]
  note b = isPortActive_resolves_once[of "[ConnectSucceeds, TimerFires]"]
  note c = isPortActive_resolves_once[of "[ConnectFails, TimerFires]"]
  note d = isPortActive_resolves_once[of "[TimerFires, ConnectFails]"]
  have x: "connClosed (isPortActive [TimerFires, ConnectSucceeds])"
    by (simp add: isPortActive_def onEvent_def done'_def pending_def)
  from a b c d x show ?thesis by simp
qed



end
